theory Spec2Isabelle
  imports Complex_Main
begin

section \<open>Numeric helpers\<close>

text \<open>
  The synthesizer computes with single-precision floats. They are modelled as exact
  reals throughout: every comparison and every sum below is the one the source writes,
  evaluated without rounding.
\<close>

text \<open>\<^verbatim>\<open>juce::jlimit (lower, upper, value)\<close>: the value clamped to the two bounds.\<close>

definition jlimit :: "'a::linorder \<Rightarrow> 'a \<Rightarrow> 'a \<Rightarrow> 'a" where
  "jlimit lowerLimit upperLimit valueToConstrain =
     (if valueToConstrain < lowerLimit then lowerLimit
      else if upperLimit < valueToConstrain then upperLimit
      else valueToConstrain)"

text \<open>\<^verbatim>\<open>juce::jmap (value0To1, targetMin, targetMax)\<close>.\<close>

definition jmap :: "real \<Rightarrow> real \<Rightarrow> real \<Rightarrow> real" where
  "jmap value0To1 targetRangeMin targetRangeMax =
     targetRangeMin + value0To1 * (targetRangeMax - targetRangeMin)"

text \<open>\<^verbatim>\<open>juce::jmap (sourceValue, sourceMin, sourceMax, targetMin, targetMax)\<close>.\<close>

definition jmap5 :: "real \<Rightarrow> real \<Rightarrow> real \<Rightarrow> real \<Rightarrow> real \<Rightarrow> real" where
  "jmap5 sourceValue sourceRangeMin sourceRangeMax targetRangeMin targetRangeMax =
     targetRangeMin
       + ((targetRangeMax - targetRangeMin) * (sourceValue - sourceRangeMin))
           / (sourceRangeMax - sourceRangeMin)"

text \<open>\<^verbatim>\<open>static_cast<int> (float)\<close>: truncation towards zero.\<close>

definition static_cast_int :: "real \<Rightarrow> int" where
  "static_cast_int x = (if 0 \<le> x then \<lfloor>x\<rfloor> else \<lceil>x\<rceil>)"


section \<open>LFO\<close>

datatype LFO_Type = Sine | Triangle | Square | Steps | Count

datatype LFO_Mode = Free | Retrigger | Mode_Count

record LFO =
  bypassed :: bool
  needsRetrigger :: bool
  isTriggered :: bool
  modulationActive :: bool
  frequencyHz :: real
  lfo_shape :: real
  numSteps :: int
  lfo_phase :: real
  lfo_type :: LFO_Type
  lfo_mode :: LFO_Mode
  stepValues :: "real list"
  modulationBuffer :: "real list"
  bufferIndex :: nat

text \<open>The member initialisers of \<^verbatim>\<open>class LFO\<close> (\<^verbatim>\<open>lfoFreqMinHz\<close> is 0.05).\<close>

definition LFO_init :: LFO where
  "LFO_init =
     \<lparr> bypassed = False, needsRetrigger = False, isTriggered = False,
       modulationActive = True, frequencyHz = 5 / 100, lfo_shape = 1 / 2,
       numSteps = 4, lfo_phase = 0, lfo_type = Sine, lfo_mode = Free,
       stepValues = [], modulationBuffer = [], bufferIndex = 0 \<rparr>"

definition setFrequency :: "real \<Rightarrow> LFO \<Rightarrow> LFO" where
  "setFrequency hz l = l\<lparr>frequencyHz := hz\<rparr>"

definition setType :: "LFO_Type \<Rightarrow> LFO \<Rightarrow> LFO" where
  "setType newType l = l\<lparr>lfo_type := newType\<rparr>"

definition setShape :: "real \<Rightarrow> LFO \<Rightarrow> LFO" where
  "setShape newShape l = l\<lparr>lfo_shape := newShape\<rparr>"

definition LFO_setMode :: "LFO_Mode \<Rightarrow> LFO \<Rightarrow> LFO" where
  "LFO_setMode newMode l = l\<lparr>lfo_mode := newMode\<rparr>"

definition setBypassed :: "bool \<Rightarrow> LFO \<Rightarrow> LFO" where
  "setBypassed shouldBypass l = l\<lparr>bypassed := shouldBypass\<rparr>"

definition setModulationActive :: "bool \<Rightarrow> LFO \<Rightarrow> LFO" where
  "setModulationActive shouldBeActive l = l\<lparr>modulationActive := shouldBeActive\<rparr>"

definition isModulationActive :: "LFO \<Rightarrow> bool" where
  "isModulationActive l = modulationActive l"

definition resetPhase :: "LFO \<Rightarrow> LFO" where
  "resetPhase l = l\<lparr>lfo_phase := 0\<rparr>"

definition onTrigger :: "LFO \<Rightarrow> LFO" where
  "onTrigger l = (if lfo_mode l = Retrigger then l\<lparr>needsRetrigger := True\<rparr> else l)"

definition LFO_noteOn :: "LFO \<Rightarrow> LFO" where
  "LFO_noteOn l =
     (let l1 = l\<lparr>isTriggered := True\<rparr>
      in if lfo_mode l1 = Retrigger then resetPhase l1 else l1)"

definition resetTrigger :: "LFO \<Rightarrow> LFO" where
  "resetTrigger l = l\<lparr>isTriggered := False\<rparr>"

text \<open>
  \<^verbatim>\<open>randomizeSteps\<close> draws \<open>numSteps\<close> values from the system random generator; the
  drawn values are an argument of the model (only the first \<open>numSteps\<close> are used).
\<close>

definition randomizeSteps :: "real list \<Rightarrow> LFO \<Rightarrow> LFO" where
  "randomizeSteps drawn l = l\<lparr>stepValues := take (nat (numSteps l)) drawn\<rparr>"

definition setNumSteps :: "real list \<Rightarrow> int \<Rightarrow> LFO \<Rightarrow> LFO" where
  "setNumSteps drawn newNumSteps l =
     (if newNumSteps \<noteq> numSteps l
      then (let l1 = l\<lparr>numSteps := newNumSteps\<rparr>
            in if lfo_type l1 = Steps then randomizeSteps drawn l1 else l1)
      else l)"

text \<open>
  \<^verbatim>\<open>getValueAtPhase\<close>. The source also computes \<^verbatim>\<open>warpPhase (phase, shape)\<close> into a
  local that no branch reads; it has no effect and is left out.
\<close>

definition getValueAtPhase :: "LFO \<Rightarrow> real \<Rightarrow> real" where
  "getValueAtPhase l phase =
     (if lfo_type l = Steps then
        (let stepIndex = jlimit 0 (numSteps l - 1) (static_cast_int (phase * real_of_int (numSteps l)));
             rampValue = real_of_int stepIndex / real_of_int (numSteps l - 1);
             randomValue = (if stepIndex < int (length (stepValues l))
                            then stepValues l ! nat stepIndex else 0)
         in jmap5 (lfo_shape l) 0 1 rampValue randomValue)
      else case lfo_type l of
        Sine \<Rightarrow>
          (let duty = jlimit (1 / 100) (99 / 100) (lfo_shape l);
               angle = (if phase < duty
                        then jmap5 (phase / duty) 0 1 0 pi
                        else jmap5 ((phase - duty) / (1 - duty)) 0 1 pi (2 * pi))
           in 1 / 2 + 1 / 2 * sin angle)
      | Triangle \<Rightarrow>
          (let skew = jlimit (1 / 1000) (999 / 1000) (lfo_shape l)
           in if phase < skew then phase / skew else (1 - phase) / (1 - skew))
      | Square \<Rightarrow>
          (let dutyCycle = lfo_shape l in if phase < dutyCycle then 1 else 0)
      | _ \<Rightarrow> 1 / 2)"

text \<open>
  The loop of \<^verbatim>\<open>advance\<close>: sample \<open>i\<close> is the shape at the current phase, then the phase
  steps by \<open>phaseDelta\<close> and wraps once at 1. The result is the filled buffer and the
  phase after the block.
\<close>

fun advance_loop :: "LFO \<Rightarrow> real \<Rightarrow> nat \<Rightarrow> real \<Rightarrow> real list \<times> real" where
  "advance_loop l phaseDelta 0 phase = ([], phase)"
| "advance_loop l phaseDelta (Suc n) phase =
     (let v = getValueAtPhase l phase;
          phase1 = phase + phaseDelta;
          phase2 = (if phase1 \<ge> 1 then phase1 - 1 else phase1);
          (vs, phaseEnd) = advance_loop l phaseDelta n phase2
      in (v # vs, phaseEnd))"

text \<open>
  \<^verbatim>\<open>advance (samplesPerBlock, sampleRate)\<close>. The block size is a natural number: the
  host never passes a negative size. \<^verbatim>\<open>resize\<close> followed by the loop overwrites every
  element, so the new buffer is exactly the list the loop produces.
\<close>

definition advance :: "nat \<Rightarrow> real \<Rightarrow> LFO \<Rightarrow> LFO" where
  "advance samplesPerBlock sampleRate l =
     (let l1 = (if needsRetrigger l then (resetPhase l)\<lparr>needsRetrigger := False\<rparr> else l);
          phaseDelta = frequencyHz l1 / sampleRate;
          (buf, phaseEnd) = advance_loop l1 phaseDelta samplesPerBlock (lfo_phase l1)
      in l1\<lparr>modulationBuffer := buf, bufferIndex := 0, lfo_phase := phaseEnd\<rparr>)"

text \<open>
  \<^verbatim>\<open>getNextValue\<close> returns the value and the updated LFO. Reading
  \<^verbatim>\<open>modulationBuffer[bufferIndex]\<close> beyond the end is undefined in C++; the model
  returns \<open>None\<close> there.
\<close>

definition getNextValue :: "LFO \<Rightarrow> (real \<times> LFO) option" where
  "getNextValue l =
     (if \<not> isModulationActive l then Some (0, l)
      else if modulationBuffer l = [] then Some (1 / 2, l)
      else if bufferIndex l < length (modulationBuffer l)
      then Some (modulationBuffer l ! bufferIndex l,
                 l\<lparr>bufferIndex := (bufferIndex l + 1) mod length (modulationBuffer l)\<rparr>)
      else None)"


text \<open>The states an LFO can be in: built by the constructor, changed by its methods.\<close>

inductive LFO_reachable :: "LFO \<Rightarrow> bool" where
  reach_init: "LFO_reachable LFO_init"
| reach_setFrequency: "LFO_reachable l \<Longrightarrow> LFO_reachable (setFrequency hz l)"
| reach_setType: "LFO_reachable l \<Longrightarrow> LFO_reachable (setType t l)"
| reach_setShape: "LFO_reachable l \<Longrightarrow> LFO_reachable (setShape s l)"
| reach_setMode: "LFO_reachable l \<Longrightarrow> LFO_reachable (LFO_setMode m l)"
| reach_setBypassed: "LFO_reachable l \<Longrightarrow> LFO_reachable (setBypassed b l)"
| reach_setModulationActive: "LFO_reachable l \<Longrightarrow> LFO_reachable (setModulationActive b l)"
| reach_resetPhase: "LFO_reachable l \<Longrightarrow> LFO_reachable (resetPhase l)"
| reach_onTrigger: "LFO_reachable l \<Longrightarrow> LFO_reachable (onTrigger l)"
| reach_noteOn: "LFO_reachable l \<Longrightarrow> LFO_reachable (LFO_noteOn l)"
| reach_resetTrigger: "LFO_reachable l \<Longrightarrow> LFO_reachable (resetTrigger l)"
| reach_randomizeSteps: "LFO_reachable l \<Longrightarrow> LFO_reachable (randomizeSteps drawn l)"
| reach_setNumSteps: "LFO_reachable l \<Longrightarrow> LFO_reachable (setNumSteps drawn n l)"
| reach_advance: "LFO_reachable l \<Longrightarrow> LFO_reachable (advance n sr l)"
| reach_getNextValue:
    "LFO_reachable l \<Longrightarrow> getNextValue l = Some (v, l') \<Longrightarrow> LFO_reachable l'"


section \<open>Modulation targets and the host parameter store\<close>

datatype ModulationMode = Mode_None | Mode_Manual | Mode_Midi | Mode_Envelope | Mode_LFO

datatype ModulationSourceType = Source_Envelope | Source_LFO

datatype ModulationSourceID =
  SourceID (source_type: ModulationSourceType) (source_index: int)

text \<open>
  \<^verbatim>\<open>class KnobModulationEngine\<close>. The drag start position is screen geometry and is
  not modelled.
\<close>

record KnobModulationEngine =
  eng_mode :: ModulationMode
  modSourceIndex :: int
  eng_value :: real
  eng_min :: real
  eng_max :: real
  eng_delta :: real
  dragging :: bool
  editingMin :: bool

definition KnobModulationEngine_init :: KnobModulationEngine where
  "KnobModulationEngine_init =
     \<lparr> eng_mode = Mode_Manual, modSourceIndex = 0, eng_value = 0, eng_min = 0,
       eng_max = 1, eng_delta = 1, dragging = False, editingMin = False \<rparr>"

definition setValue :: "real \<Rightarrow> KnobModulationEngine \<Rightarrow> KnobModulationEngine" where
  "setValue normalized e = e\<lparr>eng_value := jlimit 0 1 normalized\<rparr>"

definition setMode :: "ModulationMode \<Rightarrow> KnobModulationEngine \<Rightarrow> KnobModulationEngine" where
  "setMode newMode e =
     (let e1 = e\<lparr>eng_mode := newMode\<rparr>
      in if eng_mode e1 = Mode_Envelope \<or> eng_mode e1 = Mode_LFO
         then e1\<lparr>eng_min := 0, eng_max := 1, eng_delta := 1\<rparr>
         else e1)"

definition getMode :: "KnobModulationEngine \<Rightarrow> ModulationMode" where
  "getMode e = eng_mode e"

definition clear :: "KnobModulationEngine \<Rightarrow> KnobModulationEngine" where
  "clear e = e\<lparr>eng_mode := Mode_Manual, eng_value := 0, eng_min := 0, eng_max := 1,
               eng_delta := 1, dragging := False\<rparr>"

definition setRange :: "real \<Rightarrow> real \<Rightarrow> KnobModulationEngine \<Rightarrow> KnobModulationEngine" where
  "setRange minNormalized maxNormalized e =
     (let mn = jlimit 0 1 minNormalized;
          mx = jlimit mn 1 maxNormalized
      in e\<lparr>eng_min := mn, eng_max := mx, eng_delta := mx - mn\<rparr>)"

definition getRange :: "KnobModulationEngine \<Rightarrow> real \<times> real" where
  "getRange e = (eng_min e, eng_max e)"

text \<open>
  The host parameter store (\<^verbatim>\<open>juce::AudioProcessorValueTreeState\<close>): a flat namespace of
  named parameters. A parameter is modelled by one real value and its default; a name
  that is not mapped is a parameter that does not exist (\<^verbatim>\<open>getParameter\<close> returns null).
  The float parameters the modulation code writes have the range [0,1], so their raw and
  normalised values coincide; the choice and integer parameters are only read raw.
  \<^verbatim>\<open>setValueNotifyingHost\<close> stores the value it is given: the store's own rounding to the
  parameter's step and its listener callbacks belong to the framework.
\<close>

record parameter =
  par_value :: real
  par_default :: real

type_synonym APVTS = "string \<rightharpoonup> parameter"

definition setValueNotifyingHost :: "string \<Rightarrow> real \<Rightarrow> APVTS \<Rightarrow> APVTS" where
  "setValueNotifyingHost pid newValue ap =
     (case ap pid of None \<Rightarrow> ap | Some p \<Rightarrow> ap(pid \<mapsto> p\<lparr>par_value := newValue\<rparr>))"

text \<open>The UI-bound target: the modulation part of \<^verbatim>\<open>class Knob\<close>.\<close>

record Knob =
  paramID :: string
  modEngine :: KnobModulationEngine

text \<open>The headless proxy: \<^verbatim>\<open>class ModulationTarget\<close>. \<open>baseParam = None\<close> is the null pointer.\<close>

record ModulationTarget =
  baseParam :: "string option"
  currentSourceIndex :: int
  currentMode :: ModulationMode
  currentRange :: "real \<times> real"

text \<open>The two implementations of the interface \<^verbatim>\<open>ModulatableParameter\<close>.\<close>

datatype ModulatableParameter = A_Knob Knob | A_ModulationTarget ModulationTarget

text \<open>
  \<^verbatim>\<open>setModulationValue\<close> returns the updated target and the updated parameter store.
\<close>

definition Knob_setModulationValue :: "real \<Rightarrow> Knob \<Rightarrow> APVTS \<Rightarrow> Knob \<times> APVTS" where
  "Knob_setModulationValue normalizedValue k ap =
     (let k1 = k\<lparr>modEngine := setValue normalizedValue (modEngine k)\<rparr>
      in if getMode (modEngine k1) = Mode_Envelope \<or> getMode (modEngine k1) = Mode_LFO
         then (let (mn, mx) = getRange (modEngine k1);
                   modScaled = mn + (mx - mn) * normalizedValue;
                   final = jlimit 0 1 modScaled
               in (k1, setValueNotifyingHost (paramID k1) final ap))
         else (k1, ap))"

definition ModulationTarget_setModulationValue ::
  "real \<Rightarrow> ModulationTarget \<Rightarrow> APVTS \<Rightarrow> ModulationTarget \<times> APVTS" where
  "ModulationTarget_setModulationValue normalizedValue t ap =
     (case baseParam t of
        None \<Rightarrow> (t, ap)
      | Some pid \<Rightarrow>
          (let remapped = jmap normalizedValue (fst (currentRange t)) (snd (currentRange t))
           in (t, setValueNotifyingHost pid remapped ap)))"

definition setModulationValue ::
  "real \<Rightarrow> ModulatableParameter \<Rightarrow> APVTS \<Rightarrow> ModulatableParameter \<times> APVTS" where
  "setModulationValue normalizedValue target ap =
     (case target of
        A_Knob k \<Rightarrow> (let (k1, ap1) = Knob_setModulationValue normalizedValue k ap
                     in (A_Knob k1, ap1))
      | A_ModulationTarget t \<Rightarrow>
          (let (t1, ap1) = ModulationTarget_setModulationValue normalizedValue t ap
           in (A_ModulationTarget t1, ap1)))"

text \<open>
  \<^verbatim>\<open>Knob::setModulationMode\<close>: in the Envelope and LFO modes the range is restored from
  the \<^verbatim>\<open>_MOD_MIN\<close> and \<^verbatim>\<open>_MOD_MAX\<close> companions when both exist. The slider's mouse
  settings are widget state and are not modelled.
\<close>

definition Knob_setModulationMode :: "ModulationMode \<Rightarrow> Knob \<Rightarrow> APVTS \<Rightarrow> Knob" where
  "Knob_setModulationMode m k ap =
     (let k1 = k\<lparr>modEngine := setMode m (modEngine k)\<rparr>
      in if m = Mode_Envelope \<or> m = Mode_LFO
         then (case ap (paramID k1 @ ''_MOD_MIN'') of
                 None \<Rightarrow> k1
               | Some minParam \<Rightarrow>
                   (case ap (paramID k1 @ ''_MOD_MAX'') of
                      None \<Rightarrow> k1
                    | Some maxParam \<Rightarrow>
                        k1\<lparr>modEngine :=
                             setRange (par_value minParam) (par_value maxParam) (modEngine k1)\<rparr>))
         else k1)"

definition setModulationMode ::
  "ModulationMode \<Rightarrow> ModulatableParameter \<Rightarrow> APVTS \<Rightarrow> ModulatableParameter" where
  "setModulationMode m target ap =
     (case target of
        A_Knob k \<Rightarrow> A_Knob (Knob_setModulationMode m k ap)
      | A_ModulationTarget t \<Rightarrow> A_ModulationTarget (t\<lparr>currentMode := m\<rparr>))"

definition getModulationMode :: "ModulatableParameter \<Rightarrow> ModulationMode" where
  "getModulationMode target =
     (case target of
        A_Knob k \<Rightarrow> getMode (modEngine k)
      | A_ModulationTarget t \<Rightarrow> currentMode t)"

definition clearModulation :: "ModulatableParameter \<Rightarrow> ModulatableParameter" where
  "clearModulation target =
     (case target of
        A_Knob k \<Rightarrow> A_Knob (k\<lparr>modEngine := clear (modEngine k)\<rparr>)
      | A_ModulationTarget t \<Rightarrow>
          A_ModulationTarget (t\<lparr>currentMode := Mode_Manual, currentRange := (0, 1)\<rparr>))"

definition setModulationRange ::
  "real \<Rightarrow> real \<Rightarrow> ModulatableParameter \<Rightarrow> ModulatableParameter" where
  "setModulationRange minNormalized maxNormalized target =
     (case target of
        A_Knob k \<Rightarrow> A_Knob (k\<lparr>modEngine := setRange minNormalized maxNormalized (modEngine k)\<rparr>)
      | A_ModulationTarget t \<Rightarrow>
          A_ModulationTarget (t\<lparr>currentRange := (minNormalized, maxNormalized)\<rparr>))"

definition getModulationRange :: "ModulatableParameter \<Rightarrow> real \<times> real" where
  "getModulationRange target =
     (case target of
        A_Knob k \<Rightarrow> getRange (modEngine k)
      | A_ModulationTarget t \<Rightarrow> currentRange t)"


section \<open>Modulation router\<close>

text \<open>
  A \<^verbatim>\<open>ModulatableParameter*\<close> is the null pointer or the address of a target object.
  The objects live in a store from addresses to targets; the router holds pointers only.
\<close>

datatype pointer = nullptr | Address nat

record ModulationRouter =
  sourceToTargets :: "ModulationSourceID \<rightharpoonup> pointer list"
  targetToSource :: "pointer \<rightharpoonup> ModulationSourceID"
  lastModValues :: "ModulationSourceID \<rightharpoonup> real"

definition ModulationRouter_init :: ModulationRouter where
  "ModulationRouter_init =
     \<lparr> sourceToTargets = Map.empty, targetToSource = Map.empty, lastModValues = Map.empty \<rparr>"

text \<open>
  The part of the processor the router works on: the parameter store, the target
  objects, the router and the processor's list of registered knobs.
\<close>

record Processor =
  apvts :: APVTS
  objects :: "nat \<Rightarrow> ModulatableParameter"
  modulationRouter :: ModulationRouter
  knobs :: "nat list"

text \<open>Method calls through a non-null target pointer.\<close>

definition call_setModulationMode :: "nat \<Rightarrow> ModulationMode \<Rightarrow> Processor \<Rightarrow> Processor" where
  "call_setModulationMode a m s =
     s\<lparr>objects := (objects s)(a := setModulationMode m (objects s a) (apvts s))\<rparr>"

definition call_clearModulation :: "nat \<Rightarrow> Processor \<Rightarrow> Processor" where
  "call_clearModulation a s = s\<lparr>objects := (objects s)(a := clearModulation (objects s a))\<rparr>"

definition call_setModulationValue :: "nat \<Rightarrow> real \<Rightarrow> Processor \<Rightarrow> Processor" where
  "call_setModulationValue a v s =
     (let (t1, ap1) = setModulationValue v (objects s a) (apvts s)
      in s\<lparr>objects := (objects s)(a := t1), apvts := ap1\<rparr>)"

text \<open>\<^verbatim>\<open>sourceToTargets[source]\<close>: the vector under the key, empty when the key is new.\<close>

definition targets_of :: "ModulationRouter \<Rightarrow> ModulationSourceID \<Rightarrow> pointer list" where
  "targets_of r source = (case sourceToTargets r source of None \<Rightarrow> [] | Some ts \<Rightarrow> ts)"

definition disconnect :: "pointer \<Rightarrow> Processor \<Rightarrow> Processor" where
  "disconnect target s =
     (case target of
        nullptr \<Rightarrow> s
      | Address a \<Rightarrow>
          (case targetToSource (modulationRouter s) target of
             None \<Rightarrow> s
           | Some source \<Rightarrow>
               (let r = modulationRouter s;
                    targets = removeAll target (targets_of r source);
                    s2t = (if targets = [] then (sourceToTargets r)(source := None)
                           else (sourceToTargets r)(source \<mapsto> targets));
                    r1 = r\<lparr>sourceToTargets := s2t,
                           targetToSource := (targetToSource r)(target := None)\<rparr>;
                    s1 = s\<lparr>modulationRouter := r1\<rparr>
                in call_clearModulation a (call_setModulationMode a Mode_Manual s1))))"

definition unregisterTarget :: "pointer \<Rightarrow> Processor \<Rightarrow> Processor" where
  "unregisterTarget target s = disconnect target s"

text \<open>
  \<^verbatim>\<open>connect\<close> ends by calling \<^verbatim>\<open>target->setModulationMode\<close> for either source type, so a
  null target is dereferenced: undefined behaviour, \<open>None\<close> in the model.
\<close>

definition connect_target :: "ModulationSourceID \<Rightarrow> nat \<Rightarrow> Processor \<Rightarrow> Processor" where
  "connect_target source a s =
     (let s1 = disconnect (Address a) s;
          r = modulationRouter s1;
          r1 = r\<lparr>sourceToTargets := (sourceToTargets r)(source \<mapsto> targets_of r source @ [Address a]),
                 targetToSource := (targetToSource r)(Address a \<mapsto> source)\<rparr>;
          s2 = s1\<lparr>modulationRouter := r1\<rparr>
      in case source_type source of
           Source_Envelope \<Rightarrow> call_setModulationMode a Mode_Envelope s2
         | Source_LFO \<Rightarrow> call_setModulationMode a Mode_LFO s2)"

definition connect :: "ModulationSourceID \<Rightarrow> pointer \<Rightarrow> Processor \<Rightarrow> Processor option" where
  "connect source target s =
     (case target of
        nullptr \<Rightarrow> None
      | Address a \<Rightarrow> Some (connect_target source a s))"

text \<open>
  The loop shared by \<^verbatim>\<open>pushModulationValue\<close> and \<^verbatim>\<open>retriggerPush\<close>: every non-null
  target of the list receives the value, in list order.
\<close>

fun push_to_targets :: "real \<Rightarrow> pointer list \<Rightarrow> Processor \<Rightarrow> Processor" where
  "push_to_targets v [] s = s"
| "push_to_targets v (nullptr # ts) s = push_to_targets v ts s"
| "push_to_targets v (Address a # ts) s = push_to_targets v ts (call_setModulationValue a v s)"

definition pushModulationValue :: "ModulationSourceID \<Rightarrow> real \<Rightarrow> Processor \<Rightarrow> Processor" where
  "pushModulationValue source normalizedValue s =
     (let r = modulationRouter s;
          r1 = r\<lparr>lastModValues := (lastModValues r)(source \<mapsto> normalizedValue)\<rparr>;
          s1 = s\<lparr>modulationRouter := r1\<rparr>
      in case sourceToTargets r1 source of
           None \<Rightarrow> s1
         | Some targets \<Rightarrow>
             (let s2 = push_to_targets normalizedValue targets s1;
                  r2 = modulationRouter s2
              in s2\<lparr>modulationRouter :=
                      r2\<lparr>sourceToTargets :=
                            (sourceToTargets r2)(source \<mapsto> filter (\<lambda>t. t \<noteq> nullptr) targets)\<rparr>\<rparr>))"

text \<open>
  The loop of \<^verbatim>\<open>disconnectAllTargetsUsing\<close>: each non-null target is cleared and set to
  Manual; when it is a \<^verbatim>\<open>Knob\<close> (the \<^verbatim>\<open>dynamic_cast\<close>) whose parameter exists, the
  parameter is set to its default; the target's reverse entry is erased.
\<close>

definition reset_to_default :: "nat \<Rightarrow> Processor \<Rightarrow> Processor" where
  "reset_to_default a s =
     (case objects s a of
        A_Knob knob \<Rightarrow>
          (case apvts s (paramID knob) of
             None \<Rightarrow> s
           | Some param \<Rightarrow>
               s\<lparr>apvts := setValueNotifyingHost (paramID knob) (par_default param) (apvts s)\<rparr>)
      | A_ModulationTarget t \<Rightarrow> s)"

fun disconnect_targets :: "pointer list \<Rightarrow> Processor \<Rightarrow> Processor" where
  "disconnect_targets [] s = s"
| "disconnect_targets (nullptr # ts) s = disconnect_targets ts s"
| "disconnect_targets (Address a # ts) s =
     (let s1 = call_setModulationMode a Mode_Manual (call_clearModulation a s);
          s2 = reset_to_default a s1;
          r = modulationRouter s2;
          s3 = s2\<lparr>modulationRouter := r\<lparr>targetToSource := (targetToSource r)(Address a := None)\<rparr>\<rparr>
      in disconnect_targets ts s3)"

definition disconnectAllTargetsUsing :: "ModulationSourceID \<Rightarrow> Processor \<Rightarrow> Processor" where
  "disconnectAllTargetsUsing source s =
     (case sourceToTargets (modulationRouter s) source of
        None \<Rightarrow> s
      | Some targets \<Rightarrow>
          (let s1 = disconnect_targets targets s;
               r = modulationRouter s1
           in s1\<lparr>modulationRouter := r\<lparr>sourceToTargets := (sourceToTargets r)(source := None)\<rparr>\<rparr>))"

text \<open>
  \<^verbatim>\<open>disconnectAll\<close> visits every entry of the reverse map. The keys are distinct
  pointers and each visit touches only its own target, so the order of the visits does
  not matter: every target with an entry is cleared and set to Manual.
\<close>

definition disconnectAll :: "Processor \<Rightarrow> Processor" where
  "disconnectAll s =
     s\<lparr>objects :=
          (\<lambda>a. case targetToSource (modulationRouter s) (Address a) of
                 None \<Rightarrow> objects s a
               | Some source \<Rightarrow>
                   setModulationMode Mode_Manual (clearModulation (objects s a)) (apvts s)),
       modulationRouter := ModulationRouter_init\<rparr>"

definition getSourceForTarget :: "Processor \<Rightarrow> pointer \<Rightarrow> ModulationSourceID option" where
  "getSourceForTarget s target = targetToSource (modulationRouter s) target"

definition retriggerPush :: "ModulationSourceID \<Rightarrow> Processor \<Rightarrow> Processor" where
  "retriggerPush source s =
     (case lastModValues (modulationRouter s) source of
        None \<Rightarrow> s
      | Some v \<Rightarrow>
          (case sourceToTargets (modulationRouter s) source of
             None \<Rightarrow> s
           | Some targets \<Rightarrow> push_to_targets v targets s))"

definition connectIfAlive :: "ModulationSourceID \<Rightarrow> pointer \<Rightarrow> Processor \<Rightarrow> Processor option" where
  "connectIfAlive source target s =
     (if lastModValues (modulationRouter s) source \<noteq> None
      then (case connect source target s of
              None \<Rightarrow> None
            | Some s1 \<Rightarrow> Some (retriggerPush source s1))
      else Some s)"

text \<open>
  The states the router can be in: it starts empty, its methods change it, and code
  outside the router may change the targets and the parameter store but has no access
  to the router's private maps.
\<close>

inductive reachable :: "Processor \<Rightarrow> bool" where
  r_init: "modulationRouter s = ModulationRouter_init \<Longrightarrow> reachable s"
| r_outside: "reachable s \<Longrightarrow> reachable (s\<lparr>apvts := ap, objects := obs, knobs := ks\<rparr>)"
| r_connect: "reachable s \<Longrightarrow> connect source target s = Some s' \<Longrightarrow> reachable s'"
| r_disconnect: "reachable s \<Longrightarrow> reachable (disconnect target s)"
| r_unregisterTarget: "reachable s \<Longrightarrow> reachable (unregisterTarget target s)"
| r_push: "reachable s \<Longrightarrow> reachable (pushModulationValue source v s)"
| r_disconnectAllTargetsUsing: "reachable s \<Longrightarrow> reachable (disconnectAllTargetsUsing source s)"
| r_disconnectAll: "reachable s \<Longrightarrow> reachable (disconnectAll s)"
| r_retriggerPush: "reachable s \<Longrightarrow> reachable (retriggerPush source s)"
| r_connectIfAlive: "reachable s \<Longrightarrow> connectIfAlive source target s = Some s' \<Longrightarrow> reachable s'"

text \<open>A target is connected to a source when the source's list holds its pointer.\<close>

definition connected :: "Processor \<Rightarrow> ModulationSourceID \<Rightarrow> pointer \<Rightarrow> bool" where
  "connected s source target = (target \<in> set (targets_of (modulationRouter s) source))"


text \<open>
  The router's consistency: no list holds a pointer twice or the null pointer, and a
  pointer is in the list of a source exactly when the reverse map sends it to that
  source.
\<close>

definition router_inv :: "ModulationRouter \<Rightarrow> bool" where
  "router_inv r =
     ((\<forall>source. distinct (targets_of r source) \<and> nullptr \<notin> set (targets_of r source))
      \<and> (\<forall>t source. t \<in> set (targets_of r source) \<longleftrightarrow> targetToSource r t = Some source))"

text \<open>The parameter a target writes to: the knob's \<^verbatim>\<open>paramID\<close>, the proxy's \<^verbatim>\<open>baseParam\<close>.\<close>

definition parameter_of :: "ModulatableParameter \<Rightarrow> string option" where
  "parameter_of target =
     (case target of A_Knob k \<Rightarrow> Some (paramID k) | A_ModulationTarget t \<Rightarrow> baseParam t)"

text \<open>The parameter a knob is bound to; a proxy is no knob (the \<^verbatim>\<open>dynamic_cast\<close> fails).\<close>

definition knob_param :: "ModulatableParameter \<Rightarrow> string option" where
  "knob_param target =
     (case target of A_Knob k \<Rightarrow> Some (paramID k) | A_ModulationTarget t \<Rightarrow> None)"

text \<open>A parameter set back to its default value.\<close>

definition reset_param :: "parameter option \<Rightarrow> parameter option" where
  "reset_param = map_option (\<lambda>p. p\<lparr>par_value := par_default p\<rparr>)"

text \<open>The value a parameter of the store currently holds.\<close>

definition value_of :: "APVTS \<Rightarrow> string \<Rightarrow> real option" where
  "value_of ap pid = map_option par_value (ap pid)"


section \<open>Preset loading\<close>

text \<open>\<^verbatim>\<open>static_cast<ModulationMode> (int)\<close>; an integer outside the enumerators names no mode.\<close>

definition to_ModulationMode :: "int \<Rightarrow> ModulationMode option" where
  "to_ModulationMode i =
     (if i = 0 then Some Mode_None
      else if i = 1 then Some Mode_Manual
      else if i = 2 then Some Mode_Midi
      else if i = 3 then Some Mode_Envelope
      else if i = 4 then Some Mode_LFO
      else None)"

text \<open>
  One round of the loop of \<^verbatim>\<open>restoreModulationRouting\<close>. The processor's list holds
  \<^verbatim>\<open>Knob*\<close> only, so the object at the address is a knob.
\<close>

definition restore_knob :: "nat \<Rightarrow> Processor \<Rightarrow> Processor" where
  "restore_knob knob s =
     (case objects s knob of
        A_ModulationTarget t \<Rightarrow> s
      | A_Knob k \<Rightarrow>
          (case apvts s (paramID k @ ''_MOD_SOURCE'') of
             None \<Rightarrow> s
           | Some modeParam \<Rightarrow>
               (case apvts s (paramID k @ ''_MOD_INDEX'') of
                  None \<Rightarrow> s
                | Some indexParam \<Rightarrow>
                    (let mode = to_ModulationMode (static_cast_int (par_value modeParam));
                         index = static_cast_int (par_value indexParam)
                     in if mode = Some Mode_Envelope
                        then connect_target (SourceID Source_Envelope index) knob s
                        else if mode = Some Mode_LFO
                        then connect_target (SourceID Source_LFO index) knob s
                        else s))))"

definition restoreModulationRouting :: "Processor \<Rightarrow> Processor" where
  "restoreModulationRouting s = fold restore_knob (knobs s) s"

text \<open>
  \<^verbatim>\<open>PresetManager::loadPreset\<close>. Reading the file is the framework's work and enters as
  three functions: \<open>parse\<close> (\<^verbatim>\<open>XmlDocument::parse\<close>, \<open>None\<close> for a null result),
  \<open>fromXml\<close> (\<^verbatim>\<open>ValueTree::fromXml\<close>) and \<open>isValid\<close>; \<open>replaceState\<close> is
  \<^verbatim>\<open>apvts.replaceState\<close>, the parameter store after the tree has been installed. The
  result is the returned flag and the processor afterwards.
\<close>

definition loadPreset ::
  "('file \<Rightarrow> 'xml option) \<Rightarrow> ('xml \<Rightarrow> 'tree) \<Rightarrow> ('tree \<Rightarrow> bool) \<Rightarrow> ('tree \<Rightarrow> APVTS \<Rightarrow> APVTS)
     \<Rightarrow> 'file \<Rightarrow> Processor \<Rightarrow> bool \<times> Processor" where
  "loadPreset parse fromXml isValid replaceState presetFile s =
     (case parse presetFile of
        Some xml \<Rightarrow>
          (let newTree = fromXml xml
           in if isValid newTree
              then (let s1 = s\<lparr>apvts := replaceState newTree (apvts s)\<rparr>;
                        s2 = disconnectAll s1;
                        s3 = restoreModulationRouting s2
                    in (True, s3))
              else (False, s))
      | None \<Rightarrow> (False, s))"

text \<open>The source a knob's stored \<^verbatim>\<open>_MOD_SOURCE\<close> and \<^verbatim>\<open>_MOD_INDEX\<close> values name, if any.\<close>

definition stored_source :: "APVTS \<Rightarrow> string \<Rightarrow> ModulationSourceID option" where
  "stored_source ap pid =
     (case ap (pid @ ''_MOD_SOURCE'') of
        None \<Rightarrow> None
      | Some modeParam \<Rightarrow>
          (case ap (pid @ ''_MOD_INDEX'') of
             None \<Rightarrow> None
           | Some indexParam \<Rightarrow>
               (if to_ModulationMode (static_cast_int (par_value modeParam)) = Some Mode_Envelope
                then Some (SourceID Source_Envelope (static_cast_int (par_value indexParam)))
                else if to_ModulationMode (static_cast_int (par_value modeParam)) = Some Mode_LFO
                then Some (SourceID Source_LFO (static_cast_int (par_value indexParam)))
                else None)))"

text \<open>The same for the object at an address; a proxy has none.\<close>

definition knob_stored_source :: "Processor \<Rightarrow> nat \<Rightarrow> ModulationSourceID option" where
  "knob_stored_source s a = (case knob_param (objects s a) of
                   None \<Rightarrow> None
                 | Some pid \<Rightarrow> stored_source (apvts s) pid)"


section \<open>An example configuration\<close>

text \<open>
  A processor with one knob (address 0, bound to the filter cutoff) and headless
  proxies at every other address (bound to the oscillator pan), an empty router and
  two parameters whose values differ from their defaults.
\<close>

definition example_knob :: ModulatableParameter where
  "example_knob = A_Knob \<lparr> paramID = ''FILTER1_CUTOFF'', modEngine = KnobModulationEngine_init \<rparr>"

definition example_proxy :: ModulatableParameter where
  "example_proxy =
     A_ModulationTarget \<lparr> baseParam = Some ''OSC1_PAN'', currentSourceIndex = 0,
                          currentMode = Mode_Manual, currentRange = (0, 1) \<rparr>"

definition example_apvts :: APVTS where
  "example_apvts =
     [''FILTER1_CUTOFF'' \<mapsto> \<lparr> par_value = 1 / 5, par_default = 1 / 2 \<rparr>,
      ''OSC1_PAN'' \<mapsto> \<lparr> par_value = 1 / 10, par_default = 1 / 2 \<rparr>]"

definition example_processor :: Processor where
  "example_processor =
     \<lparr> apvts = example_apvts,
       objects = (\<lambda>a. if a = 0 then example_knob else example_proxy),
       modulationRouter = ModulationRouter_init,
       knobs = [0] \<rparr>"


section \<open>Envelope\<close>

subsection \<open>The framework's ADSR\<close>

text \<open>
  \<^verbatim>\<open>juce::ADSR\<close> is the envelope generator of the audio framework and the base class of
  \<^verbatim>\<open>Envelope::EnvelopeADSR\<close>. The framework is an external collaborator whose header the
  synthesizer includes; the definitions below follow that header (\<^verbatim>\<open>juce_ADSR.h\<close>) member
  by member: the state enumeration, the parameters, the three per-sample rates and the
  current level.
\<close>

datatype State = State_idle | State_attack | State_decay | State_sustain | State_release

record Parameters =
  attack :: real
  decay :: real
  sustain :: real
  release :: real

record ADSR =
  state :: State
  parameters :: Parameters
  adsr_sampleRate :: real
  envelopeVal :: real
  attackRate :: real
  decayRate :: real
  releaseRate :: real

definition getRate :: "real \<Rightarrow> real \<Rightarrow> real \<Rightarrow> real" where
  "getRate distance timeInSeconds sr =
     (if timeInSeconds > 0 then distance / (timeInSeconds * sr) else - 1)"

definition ADSR_reset :: "'a ADSR_scheme \<Rightarrow> 'a ADSR_scheme" where
  "ADSR_reset a = a\<lparr>envelopeVal := 0, state := State_idle\<rparr>"

definition goToNextState :: "'a ADSR_scheme \<Rightarrow> 'a ADSR_scheme" where
  "goToNextState a =
     (if state a = State_attack
      then a\<lparr>state := (if decayRate a > 0 then State_decay else State_sustain)\<rparr>
      else if state a = State_decay then a\<lparr>state := State_sustain\<rparr>
      else if state a = State_release then ADSR_reset a
      else a)"

definition recalculateRates :: "'a ADSR_scheme \<Rightarrow> 'a ADSR_scheme" where
  "recalculateRates a =
     (let p = parameters a;
          a1 = a\<lparr>attackRate := getRate 1 (attack p) (adsr_sampleRate a),
                 decayRate := getRate (1 - sustain p) (decay p) (adsr_sampleRate a),
                 releaseRate := getRate (envelopeVal a) (release p) (adsr_sampleRate a)\<rparr>
      in if (state a1 = State_attack \<and> attackRate a1 \<le> 0)
            \<or> (state a1 = State_decay \<and> (decayRate a1 \<le> 0 \<or> envelopeVal a1 \<le> sustain p))
            \<or> (state a1 = State_release \<and> releaseRate a1 \<le> 0)
         then goToNextState a1
         else a1)"

definition ADSR_setParameters :: "Parameters \<Rightarrow> 'a ADSR_scheme \<Rightarrow> 'a ADSR_scheme" where
  "ADSR_setParameters newParameters a = recalculateRates (a\<lparr>parameters := newParameters\<rparr>)"

definition getParameters :: "'a ADSR_scheme \<Rightarrow> Parameters" where
  "getParameters a = parameters a"

definition ADSR_isActive :: "'a ADSR_scheme \<Rightarrow> bool" where
  "ADSR_isActive a = (state a \<noteq> State_idle)"

definition ADSR_setSampleRate :: "real \<Rightarrow> 'a ADSR_scheme \<Rightarrow> 'a ADSR_scheme" where
  "ADSR_setSampleRate newSampleRate a = a\<lparr>adsr_sampleRate := newSampleRate\<rparr>"

definition ADSR_noteOn :: "'a ADSR_scheme \<Rightarrow> 'a ADSR_scheme" where
  "ADSR_noteOn a =
     (if attackRate a > 0 then a\<lparr>state := State_attack\<rparr>
      else if decayRate a > 0 then a\<lparr>envelopeVal := 1, state := State_decay\<rparr>
      else a\<lparr>envelopeVal := sustain (parameters a), state := State_sustain\<rparr>)"

definition ADSR_noteOff :: "'a ADSR_scheme \<Rightarrow> 'a ADSR_scheme" where
  "ADSR_noteOff a =
     (if state a \<noteq> State_idle
      then (if release (parameters a) > 0
            then a\<lparr>releaseRate := envelopeVal a / (release (parameters a) * adsr_sampleRate a),
                   state := State_release\<rparr>
            else ADSR_reset a)
      else a)"

text \<open>\<^verbatim>\<open>juce::ADSR::getNextSample\<close>: the returned sample and the generator afterwards.\<close>

definition ADSR_getNextSample :: "'a ADSR_scheme \<Rightarrow> real \<times> 'a ADSR_scheme" where
  "ADSR_getNextSample a =
     (case state a of
        State_idle \<Rightarrow> (0, a)
      | State_attack \<Rightarrow>
          (let a1 = a\<lparr>envelopeVal := envelopeVal a + attackRate a\<rparr>;
               a2 = (if envelopeVal a1 \<ge> 1 then goToNextState (a1\<lparr>envelopeVal := 1\<rparr>) else a1)
           in (envelopeVal a2, a2))
      | State_decay \<Rightarrow>
          (let a1 = a\<lparr>envelopeVal := envelopeVal a - decayRate a\<rparr>;
               a2 = (if envelopeVal a1 \<le> sustain (parameters a1)
                     then goToNextState (a1\<lparr>envelopeVal := sustain (parameters a1)\<rparr>) else a1)
           in (envelopeVal a2, a2))
      | State_sustain \<Rightarrow>
          (let a1 = a\<lparr>envelopeVal := sustain (parameters a)\<rparr> in (envelopeVal a1, a1))
      | State_release \<Rightarrow>
          (let a1 = a\<lparr>envelopeVal := envelopeVal a - releaseRate a\<rparr>;
               a2 = (if envelopeVal a1 \<le> 0 then goToNextState a1 else a1)
           in (envelopeVal a2, a2)))"

subsection \<open>EnvelopeADSR\<close>

datatype Mode = Normal | AutoRelease

record EnvelopeADSR = ADSR +
  lastValue :: real
  adsr_mode :: Mode
  attackEnded :: bool
  releaseTriggered :: bool

text \<open>
  A default-constructed \<^verbatim>\<open>EnvelopeADSR\<close>: the framework's defaults (44100 Hz, times 0.1 s,
  sustain 1, idle at level 0, rates computed by the constructor) and the member
  initialisers of the subclass.
\<close>

definition EnvelopeADSR_init :: EnvelopeADSR where
  "EnvelopeADSR_init =
     recalculateRates
       \<lparr> state = State_idle,
         parameters = \<lparr> attack = 1 / 10, decay = 1 / 10, sustain = 1, release = 1 / 10 \<rparr>,
         adsr_sampleRate = 44100, envelopeVal = 0,
         attackRate = 0, decayRate = 0, releaseRate = 0,
         lastValue = 0, adsr_mode = Normal, attackEnded = False, releaseTriggered = False \<rparr>"

definition EnvelopeADSR_setMode :: "Mode \<Rightarrow> EnvelopeADSR \<Rightarrow> EnvelopeADSR" where
  "EnvelopeADSR_setMode m a = a\<lparr>adsr_mode := m\<rparr>"

definition EnvelopeADSR_noteOn :: "EnvelopeADSR \<Rightarrow> EnvelopeADSR" where
  "EnvelopeADSR_noteOn a =
     (let a1 = (ADSR_noteOn a)\<lparr>attackEnded := False, releaseTriggered := False\<rparr>
      in if adsr_mode a1 = AutoRelease
         then (let p = getParameters a1;
                   isInstantStart = (attack p \<le> 1 / 10000);
                   isInstantEnd = (release p \<le> 1 / 10000);
                   a2 = (if isInstantStart then a1\<lparr>attackEnded := True\<rparr> else a1)
               in if isInstantStart \<and> isInstantEnd
                  then (let adjustedParams = p\<lparr>release := 5 / 100\<rparr>;
                            a3 = ADSR_setParameters adjustedParams a2;
                            a4 = ADSR_noteOff a3
                        in a4\<lparr>releaseTriggered := True\<rparr>)
                  else a2)
         else a1)"

definition EnvelopeADSR_getNextSample :: "EnvelopeADSR \<Rightarrow> real \<times> EnvelopeADSR" where
  "EnvelopeADSR_getNextSample a =
     (let (v, a1) = ADSR_getNextSample a;
          a2 = (if adsr_mode a1 = AutoRelease \<and> \<not> releaseTriggered a1
                then (let p = getParameters a1
                      in if \<not> attackEnded a1
                         then (if v \<ge> 99 / 100 then a1\<lparr>attackEnded := True\<rparr> else a1)
                         else (if v \<le> sustain p
                               then (ADSR_noteOff a1)\<lparr>releaseTriggered := True\<rparr>
                               else a1))
                else a1)
      in (v, a2\<lparr>lastValue := v\<rparr>))"

definition getCurrentValue :: "EnvelopeADSR \<Rightarrow> real" where
  "getCurrentValue a = lastValue a"

text \<open>\<open>n\<close> successive samples of one generator.\<close>

fun EnvelopeADSR_samples :: "nat \<Rightarrow> EnvelopeADSR \<Rightarrow> real list \<times> EnvelopeADSR" where
  "EnvelopeADSR_samples 0 a = ([], a)"
| "EnvelopeADSR_samples (Suc n) a =
     (let (v, a1) = EnvelopeADSR_getNextSample a;
          (vs, a2) = EnvelopeADSR_samples n a1
      in (v # vs, a2))"

subsection \<open>The voice pool\<close>

record VoiceEnvelope =
  midiNote :: int
  active :: bool
  adsr :: EnvelopeADSR
  params :: Parameters

definition VoiceEnvelope_init :: VoiceEnvelope where
  "VoiceEnvelope_init =
     \<lparr> midiNote = - 1, active = False, adsr = EnvelopeADSR_init,
       params = \<lparr> attack = 1 / 10, decay = 1 / 10, sustain = 1, release = 1 / 10 \<rparr> \<rparr>"

definition maxPolyphony :: nat where
  "maxPolyphony = 16"

record Envelope =
  env_mode :: Mode
  sampleRate :: real
  attackNorm :: real
  decayNorm :: real
  sustainNorm :: real
  releaseNorm :: real
  voiceEnvelopes :: "VoiceEnvelope list"

text \<open>
  \<^verbatim>\<open>FormattingUtils::normalizedToValue\<close> for the \<^verbatim>\<open>Time\<close> format: the clamped value cubed
  (\<^verbatim>\<open>envelopeTimeExponent\<close> is 3), mapped linearly to the range.
\<close>

definition normalizedToValue_Time :: "real \<Rightarrow> real \<Rightarrow> real \<Rightarrow> real" where
  "normalizedToValue_Time normalizedValue minValue maxValue =
     (let curved = (jlimit 0 1 normalizedValue) ^ 3
      in jmap5 curved 0 1 minValue maxValue)"

definition MIN_ADSR_TIME_MS :: real where
  "MIN_ADSR_TIME_MS = 1"

definition MAX_ADSR_TIME_MS :: real where
  "MAX_ADSR_TIME_MS = 5000"

definition mapToADSRParams :: "real \<Rightarrow> real \<Rightarrow> real \<Rightarrow> real \<Rightarrow> Parameters" where
  "mapToADSRParams a d s r =
     \<lparr> attack = normalizedToValue_Time a MIN_ADSR_TIME_MS MAX_ADSR_TIME_MS / 1000,
       decay = normalizedToValue_Time d MIN_ADSR_TIME_MS MAX_ADSR_TIME_MS / 1000,
       sustain = jlimit 0 1 s,
       release = normalizedToValue_Time r MIN_ADSR_TIME_MS MAX_ADSR_TIME_MS / 1000 \<rparr>"

definition Envelope_setParameters :: "real \<Rightarrow> real \<Rightarrow> real \<Rightarrow> real \<Rightarrow> Envelope \<Rightarrow> Envelope" where
  "Envelope_setParameters a d s r e =
     (let newParams = mapToADSRParams a d s r
      in e\<lparr>attackNorm := a, decayNorm := d, sustainNorm := s, releaseNorm := r,
           voiceEnvelopes :=
             map (\<lambda>voice. voice\<lparr>params := newParams,
                                  adsr := ADSR_setParameters newParams (adsr voice)\<rparr>)
                 (voiceEnvelopes e)\<rparr>)"

text \<open>The constructor: the member initialisers, then \<^verbatim>\<open>setParameters\<close> on them.\<close>

definition Envelope_init :: Envelope where
  "Envelope_init =
     Envelope_setParameters 0 0 1 0
       \<lparr> env_mode = Normal, sampleRate = 44100, attackNorm = 0, decayNorm = 0,
         sustainNorm = 1, releaseNorm = 0,
         voiceEnvelopes = replicate maxPolyphony VoiceEnvelope_init \<rparr>"

definition Envelope_setSampleRate :: "real \<Rightarrow> Envelope \<Rightarrow> Envelope" where
  "Envelope_setSampleRate newRate e =
     e\<lparr>sampleRate := newRate,
       voiceEnvelopes :=
         map (\<lambda>voice. voice\<lparr>adsr := ADSR_setSampleRate newRate (adsr voice)\<rparr>) (voiceEnvelopes e)\<rparr>"

definition Envelope_setMode :: "Mode \<Rightarrow> Envelope \<Rightarrow> Envelope" where
  "Envelope_setMode newMode e =
     e\<lparr>env_mode := newMode,
       voiceEnvelopes :=
         map (\<lambda>voice. voice\<lparr>adsr := EnvelopeADSR_setMode newMode (adsr voice)\<rparr>) (voiceEnvelopes e)\<rparr>"

text \<open>
  \<^verbatim>\<open>Envelope::noteOn\<close>. The loop visits the slots in pool order. A slot that is active
  with this note is reset and freed; a slot that is (now) inactive is claimed and the
  function returns; any other slot is passed over.
\<close>

definition force_reset :: "VoiceEnvelope \<Rightarrow> VoiceEnvelope" where
  "force_reset voice = voice\<lparr>adsr := ADSR_reset (adsr voice), active := False, midiNote := - 1\<rparr>"

definition claim_voice :: "Envelope \<Rightarrow> int \<Rightarrow> VoiceEnvelope \<Rightarrow> VoiceEnvelope" where
  "claim_voice e note voice =
     (let p = mapToADSRParams (attackNorm e) (decayNorm e) (sustainNorm e) (releaseNorm e)
      in voice\<lparr>midiNote := note, active := True, params := p,
               adsr := EnvelopeADSR_noteOn
                         (ADSR_setParameters p (ADSR_setSampleRate (sampleRate e) (adsr voice)))\<rparr>)"

fun noteOn_loop :: "Envelope \<Rightarrow> int \<Rightarrow> VoiceEnvelope list \<Rightarrow> VoiceEnvelope list" where
  "noteOn_loop e note [] = []"
| "noteOn_loop e note (voice # rest) =
     (let voice1 = (if active voice \<and> midiNote voice = note then force_reset voice else voice)
      in if \<not> active voice1
         then claim_voice e note voice1 # rest
         else voice1 # noteOn_loop e note rest)"

definition Envelope_noteOn :: "int \<Rightarrow> Envelope \<Rightarrow> Envelope" where
  "Envelope_noteOn note e = e\<lparr>voiceEnvelopes := noteOn_loop e note (voiceEnvelopes e)\<rparr>"

definition Envelope_noteOff :: "int \<Rightarrow> Envelope \<Rightarrow> Envelope" where
  "Envelope_noteOff note e =
     e\<lparr>voiceEnvelopes :=
         map (\<lambda>voice.
                if active voice \<and> midiNote voice = note
                then voice\<lparr>adsr :=
                       ADSR_noteOff
                         (ADSR_setParameters
                            (mapToADSRParams (attackNorm e) (decayNorm e) (sustainNorm e) (releaseNorm e))
                            (ADSR_setSampleRate (sampleRate e) (adsr voice)))\<rparr>
                else voice)
             (voiceEnvelopes e)\<rparr>"

definition resetAllVoices :: "Envelope \<Rightarrow> Envelope" where
  "resetAllVoices e =
     e\<lparr>voiceEnvelopes :=
         map (\<lambda>voice. voice\<lparr>adsr := ADSR_reset (adsr voice), active := False\<rparr>) (voiceEnvelopes e)\<rparr>"

definition isNoteActive :: "Envelope \<Rightarrow> int \<Rightarrow> bool" where
  "isNoteActive e note = (\<exists>voice \<in> set (voiceEnvelopes e). active voice \<and> midiNote voice = note)"

definition Envelope_isActive :: "Envelope \<Rightarrow> bool" where
  "Envelope_isActive e = (\<exists>voice \<in> set (voiceEnvelopes e). active voice)"

text \<open>One slot advanced by a sample, freed when its generator has become idle.\<close>

definition advance_voice :: "VoiceEnvelope \<Rightarrow> real \<times> VoiceEnvelope" where
  "advance_voice voice =
     (let (sample, a1) = EnvelopeADSR_getNextSample (adsr voice);
          voice1 = voice\<lparr>adsr := a1\<rparr>
      in (sample, if \<not> ADSR_isActive a1 then voice1\<lparr>active := False, midiNote := - 1\<rparr> else voice1))"

fun getNextSampleForNote_loop :: "int \<Rightarrow> VoiceEnvelope list \<Rightarrow> real \<times> VoiceEnvelope list" where
  "getNextSampleForNote_loop note [] = (0, [])"
| "getNextSampleForNote_loop note (voice # rest) =
     (if active voice \<and> midiNote voice = note
      then (let (sample, voice1) = advance_voice voice;
                (mixed, rest1) = getNextSampleForNote_loop note rest
            in ((if sample < 0 then 0 else sample) + mixed, voice1 # rest1))
      else (let (mixed, rest1) = getNextSampleForNote_loop note rest
            in (mixed, voice # rest1)))"

definition getNextSampleForNote :: "int \<Rightarrow> Envelope \<Rightarrow> real \<times> Envelope" where
  "getNextSampleForNote note e =
     (let (mixed, voices) = getNextSampleForNote_loop note (voiceEnvelopes e)
      in (mixed, e\<lparr>voiceEnvelopes := voices\<rparr>))"


definition Envelope_getModulationValue :: "Envelope \<Rightarrow> real" where
  "Envelope_getModulationValue e =
     (let levels = map (\<lambda>voice. jlimit 0 1 (getCurrentValue (adsr voice)))
                       (filter active (voiceEnvelopes e))
      in if length levels > 0 then sum_list levels / real (length levels) else 0)"



section \<open>Oscillator\<close>

datatype Waveform = Wave_Sine | Wave_Square | Wave_Triangle | Wave_Sawtooth | White_Noise

record NoteData =
  frequency :: real
  velocity :: real
  phases :: "real list"
  isReleasing :: bool
  lastSample :: real
  pendingNoteOff :: bool

text \<open>
  The part of \<^verbatim>\<open>class Oscillator\<close> that \<^verbatim>\<open>noteOff\<close> and \<^verbatim>\<open>getNextSample\<close> work on. The
  note map is an association list in the map's iteration order; the linked envelope is
  held by value (\<open>None\<close> is the null pointer); \<open>pLastNote\<close> is the key of the note the
  pointer refers to. The voice count is between 1 and 8 (\<^verbatim>\<open>updateFromParameters\<close> clamps
  it), so it is a natural number.
\<close>

record Oscillator =
  osc_sampleRate :: real
  envelope :: "Envelope option"
  volume :: real
  voices :: nat
  octave :: int
  waveform :: Waveform
  osc_notes :: "(int \<times> NoteData) list"
  pLastNote :: "int option"
  cachedDetuneCents :: "real list"
  cachedLeftGains :: "real list"
  cachedRightGains :: "real list"

definition twoPi :: real where
  "twoPi = 2 * pi"

text \<open>
  \<^verbatim>\<open>generateWaveSample (frequency, phase)\<close>: the sample and the advanced phase. The value
  drawn from the random generator for white noise is an argument.
\<close>

definition generateWaveSample :: "Oscillator \<Rightarrow> real \<Rightarrow> real \<Rightarrow> real \<Rightarrow> real \<times> real" where
  "generateWaveSample osc drawn freq phase =
     (let sample =
            (case waveform osc of
               Wave_Sine \<Rightarrow> sin phase
             | Wave_Square \<Rightarrow> (if sin phase \<ge> 0 then 1 else - 1)
             | Wave_Triangle \<Rightarrow>
                 2 * \<bar>2 * (phase / twoPi - real_of_int \<lfloor>phase / twoPi + 1 / 2\<rfloor>)\<bar> - 1
             | Wave_Sawtooth \<Rightarrow> 2 * (phase / twoPi - real_of_int \<lfloor>phase / twoPi + 1 / 2\<rfloor>)
             | White_Noise \<Rightarrow> drawn * 2 - 1);
          phase1 = phase + (freq / osc_sampleRate osc) * twoPi;
          phase2 = (if phase1 \<ge> twoPi then phase1 - twoPi else phase1)
      in (sample, phase2))"

definition calculateMidiNoteWithOctaveOffset :: "Oscillator \<Rightarrow> int \<Rightarrow> int" where
  "calculateMidiNoteWithOctaveOffset osc midiNoteNumber =
     jlimit 0 127 (midiNoteNumber + octave osc * 12)"

text \<open>What \<^verbatim>\<open>Oscillator::noteOff\<close> reads of a MIDI message.\<close>

record MidiMessage =
  isNoteOff :: bool
  noteNumber :: int

definition Oscillator_noteOff :: "MidiMessage \<Rightarrow> Oscillator \<Rightarrow> Oscillator" where
  "Oscillator_noteOff message osc =
     (if \<not> isNoteOff message \<or> envelope osc = None then osc
      else (let midi = calculateMidiNoteWithOctaveOffset osc (noteNumber message)
            in case map_of (osc_notes osc) midi of
                 None \<Rightarrow> osc
               | Some note \<Rightarrow>
                   osc\<lparr>osc_notes := map (\<lambda>(k, d). if k = midi
                                               then (k, d\<lparr>pendingNoteOff := True\<rparr>) else (k, d))
                                     (osc_notes osc),
                       pLastNote := (if pLastNote osc = Some midi then None else pLastNote osc)\<rparr>))"

text \<open>The running sums of the loop over the unison voices of one note.\<close>

record voice_sums =
  sumSample :: real
  voiceLeft :: real
  voiceRight :: real
  totalGain :: real
  new_phases :: "real list"

definition voice_step ::
  "Oscillator \<Rightarrow> NoteData \<Rightarrow> real \<Rightarrow> (nat \<Rightarrow> real) \<Rightarrow> voice_sums \<Rightarrow> nat \<Rightarrow> voice_sums" where
  "voice_step osc note env drawn acc voice =
     (let freq = (if voices osc > 1
                  then frequency note * 2 powr (cachedDetuneCents osc ! voice / 1200)
                  else frequency note);
          (w, phase') = generateWaveSample osc (drawn voice) freq (new_phases acc ! voice);
          s = w * velocity note * env
      in \<lparr> sumSample = sumSample acc + s,
           voiceLeft = voiceLeft acc + s * cachedLeftGains osc ! voice,
           voiceRight = voiceRight acc + s * cachedRightGains osc ! voice,
           totalGain = totalGain acc
             + cachedLeftGains osc ! voice * cachedLeftGains osc ! voice
             + cachedRightGains osc ! voice * cachedRightGains osc ! voice,
           new_phases = (new_phases acc)[voice := phase'] \<rparr>)"

definition voice_loop :: "Oscillator \<Rightarrow> NoteData \<Rightarrow> real \<Rightarrow> (nat \<Rightarrow> real) \<Rightarrow> voice_sums" where
  "voice_loop osc note env drawn =
     foldl (voice_step osc note env drawn)
       \<lparr> sumSample = 0, voiceLeft = 0, voiceRight = 0, totalGain = 0, new_phases = phases note \<rparr>
       [0..<voices osc]"

text \<open>
  The zero-crossing test of \<^verbatim>\<open>getNextSample\<close>: a pending note-off is forwarded when the
  product of the last and the current summed sample is negative.
\<close>

definition zero_crossing :: "real \<Rightarrow> real \<Rightarrow> bool" where
  "zero_crossing previous current = (previous * current < 0)"

text \<open>
  The body of the loop over the notes, for one note that has enough phases: the note's
  contribution to the left and right sums, whether \<^verbatim>\<open>envelope->noteOff\<close> was called, the
  note and the envelope afterwards.
\<close>

definition process_note ::
  "Oscillator \<Rightarrow> (nat \<Rightarrow> real) \<Rightarrow> int \<Rightarrow> NoteData \<Rightarrow> Envelope
     \<Rightarrow> (real \<times> real) \<times> bool \<times> NoteData \<times> Envelope" where
  "process_note osc drawn midi note e =
     (let (env, e1) = getNextSampleForNote midi e;
          acc = voice_loop osc note env drawn;
          fire = (pendingNoteOff note \<and> zero_crossing (lastSample note) (sumSample acc));
          e2 = (if fire then Envelope_noteOff midi e1 else e1);
          note1 = note\<lparr>phases := new_phases acc,
                       pendingNoteOff := (if fire then False else pendingNoteOff note),
                       lastSample := sumSample acc\<rparr>;
          gain = (if totalGain acc > 0 then volume osc / sqrt (totalGain acc) else 0)
      in ((voiceLeft acc * gain, voiceRight acc * gain), fire, note1, e2))"

text \<open>
  The loop over the notes. The result carries the two sums, the notes whose note-off
  was forwarded to the envelope in this call, the notes and the envelope afterwards.
  The random draws are given per note and voice.
\<close>

fun notes_loop ::
  "Oscillator \<Rightarrow> (int \<Rightarrow> nat \<Rightarrow> real) \<Rightarrow> (int \<times> NoteData) list \<Rightarrow> Envelope
     \<Rightarrow> (real \<times> real) \<times> int list \<times> (int \<times> NoteData) list \<times> Envelope" where
  "notes_loop osc drawn [] e = ((0, 0), [], [], e)"
| "notes_loop osc drawn ((midi, note) # rest) e =
     (if length (phases note) < voices osc
      then (let (totals, fired, rest1, e1) = notes_loop osc drawn rest e
            in (totals, fired, (midi, note) # rest1, e1))
      else (let ((l, r), fire, note1, e1) = process_note osc (drawn midi) midi note e;
                ((ls, rs), fired, rest1, e2) = notes_loop osc drawn rest e1
            in ((l + ls, r + rs), (if fire then midi # fired else fired),
                (midi, note1) # rest1, e2)))"

text \<open>
  \<^verbatim>\<open>getNextSample\<close>. \<open>panLeft\<close> and \<open>panRight\<close> are the next values of the two pan
  smoothers. The result is the stereo sample, the forwarded note-offs and the oscillator
  afterwards.
\<close>

definition Oscillator_getNextSample ::
  "(int \<Rightarrow> nat \<Rightarrow> real) \<Rightarrow> real \<Rightarrow> real \<Rightarrow> Oscillator \<Rightarrow> (real \<times> real) \<times> int list \<times> Oscillator" where
  "Oscillator_getNextSample drawn panLeft panRight osc =
     (case envelope osc of
        None \<Rightarrow> ((0, 0), [], osc)
      | Some e \<Rightarrow>
          (if osc_notes osc = [] then ((0, 0), [], osc)
           else (let ((leftSum, rightSum), fired, notes1, e1) = notes_loop osc drawn (osc_notes osc) e
                 in ((leftSum * panLeft, rightSum * panRight), fired,
                     osc\<lparr>osc_notes := notes1, envelope := Some e1\<rparr>))))"

text \<open>
  One note followed over successive samples: the forwarded flags and the summed samples
  of each call, in order. Each call has its own random draws.
\<close>

fun note_run ::
  "Oscillator \<Rightarrow> int \<Rightarrow> (nat \<Rightarrow> real) list \<Rightarrow> NoteData \<Rightarrow> Envelope
     \<Rightarrow> (bool \<times> real) list \<times> NoteData \<times> Envelope" where
  "note_run osc midi [] note e = ([], note, e)"
| "note_run osc midi (drawn # later) note e =
     (let (out, fire, note1, e1) = process_note osc drawn midi note e;
          (trace, note2, e2) = note_run osc midi later note1 e1
      in ((fire, lastSample note1) # trace, note2, e2))"

text \<open>
  The sample sequence \<open>ss\<close>, preceded by the sample \<open>s0\<close>, changes sign at position
  \<open>i\<close> when the product of sample \<open>i\<close> and the one before it is negative.
\<close>

definition sign_change_at :: "real \<Rightarrow> real list \<Rightarrow> nat \<Rightarrow> bool" where
  "sign_change_at s0 ss i = zero_crossing ((s0 # ss) ! i) (ss ! i)"


section \<open>Example envelopes\<close>




text \<open>
  A white-noise oscillator with one voice, linked to an envelope that sounds note 69,
  holding that note with its note-off pending.
\<close>

definition example_note :: NoteData where
  "example_note =
     \<lparr> frequency = 440, velocity = 1, phases = [0], isReleasing = False, lastSample = 0,
       pendingNoteOff = False \<rparr>"

definition example_oscillator :: Oscillator where
  "example_oscillator =
     Oscillator_noteOff \<lparr> isNoteOff = True, noteNumber = 69 \<rparr>
       \<lparr> osc_sampleRate = 44100, envelope = Some (Envelope_noteOn 69 Envelope_init),
         volume = 1, voices = 1, octave = 0, waveform = White_Noise,
         osc_notes = [(69, example_note)], pLastNote = Some 69,
         cachedDetuneCents = [0], cachedLeftGains = [1], cachedRightGains = [1] \<rparr>"

section \<open>Verified properties: LFO\<close>


lemma length_advance_loop: "length (fst (advance_loop l d n ph)) = n"
  by (induction n arbitrary: ph) (simp_all add: Let_def case_prod_beta)

lemma advance_fields:
  "modulationBuffer (advance n sr l) = fst (advance_loop (if needsRetrigger l then (resetPhase l)\<lparr>needsRetrigger := False\<rparr> else l) (frequencyHz l / sr) n (if needsRetrigger l then 0 else lfo_phase l))"
  "bufferIndex (advance n sr l) = 0"
  "modulationActive (advance n sr l) = modulationActive l"
  by (simp_all add: advance_def Let_def resetPhase_def case_prod_beta)

lemma LFO_index_inv:
  "LFO_reachable l \<Longrightarrow> modulationBuffer l \<noteq> [] \<Longrightarrow> bufferIndex l < length (modulationBuffer l)"
proof (induction rule: LFO_reachable.induct)
  case (reach_advance l n sr)
  then show ?case by (simp add: advance_fields)
next
  case (reach_getNextValue l v l')
  then show ?case
    by (auto simp: getNextValue_def split: if_splits)
qed (auto simp: LFO_init_def setFrequency_def setType_def setShape_def LFO_setMode_def
      setBypassed_def setModulationActive_def resetPhase_def onTrigger_def LFO_noteOn_def
      resetTrigger_def randomizeSteps_def setNumSteps_def Let_def split: if_splits)

text \<open>
  Claim C10. In every state an LFO can reach, \<^verbatim>\<open>getNextValue\<close> returns 0 and leaves the
  LFO untouched when the LFO is not modulation-active; returns the fallback 0.5 and
  leaves it untouched when it is active and the buffer is empty; and otherwise returns
  the sample at the current index and moves the index on by one, modulo the buffer
  length.
\<close>

theorem getNextValue_fallbacks:
  assumes "LFO_reachable l"
  shows "(\<not> isModulationActive l \<longrightarrow> getNextValue l = Some (0, l))
       \<and> (isModulationActive l \<and> modulationBuffer l = [] \<longrightarrow> getNextValue l = Some (1 / 2, l))
       \<and> (isModulationActive l \<and> modulationBuffer l \<noteq> [] \<longrightarrow>
            getNextValue l =
              Some (modulationBuffer l ! bufferIndex l,
                    l\<lparr>bufferIndex := (bufferIndex l + 1) mod length (modulationBuffer l)\<rparr>))"
  using LFO_index_inv [OF assms] by (simp add: getNextValue_def)









theorem getNextValue_fallbacks_witness:
  "LFO_reachable (advance 2 4 (setShape (1 / 2) (setType Square LFO_init)))
   \<and> getNextValue (advance 2 4 (setShape (1 / 2) (setType Square LFO_init)))
       = Some (1, (advance 2 4 (setShape (1 / 2) (setType Square LFO_init)))\<lparr>bufferIndex := 1\<rparr>)
   \<and> getNextValue LFO_init = Some (1 / 2, LFO_init)
   \<and> getNextValue (setModulationActive False LFO_init)
       = Some (0, setModulationActive False LFO_init)"
proof -
  let ?l = "advance 2 4 (setShape (1 / 2) (setType Square LFO_init))"
  have r: "LFO_reachable ?l"
    by (intro LFO_reachable.intros)
  have r2: "LFO_reachable (setModulationActive False LFO_init)"
    by (intro LFO_reachable.intros)
  have b: "modulationBuffer ?l = [1, 1]"
    by (simp add: advance_def setShape_def setType_def LFO_init_def Let_def
        getValueAtPhase_def numeral_2_eq_2)
  have a: "isModulationActive ?l" "bufferIndex ?l = 0"
    by (simp_all add: isModulationActive_def advance_fields setShape_def setType_def LFO_init_def)
  show ?thesis
    using getNextValue_fallbacks [OF r] getNextValue_fallbacks [OF reach_init]
      getNextValue_fallbacks [OF r2] r a b
    by (simp add: isModulationActive_def LFO_init_def setModulationActive_def)
qed


section \<open>Verified properties: modulation router\<close>

lemma router_call [simp]:
  "modulationRouter (call_setModulationMode a m s) = modulationRouter s"
  "modulationRouter (call_clearModulation a s) = modulationRouter s"
  "modulationRouter (call_setModulationValue a v s) = modulationRouter s"
  "modulationRouter (reset_to_default a s) = modulationRouter s"
  by (simp_all add: call_setModulationMode_def call_clearModulation_def
      call_setModulationValue_def reset_to_default_def case_prod_beta
      split: ModulatableParameter.splits option.splits)

lemma router_push_to_targets [simp]:
  "modulationRouter (push_to_targets v ts s) = modulationRouter s"
  by (induction v ts s rule: push_to_targets.induct) simp_all

lemma targets_of_upd [simp]:
  "targets_of (r\<lparr>sourceToTargets := (sourceToTargets r)(source \<mapsto> ts)\<rparr>) src
     = (if src = source then ts else targets_of r src)"
  "targets_of (r\<lparr>sourceToTargets := (sourceToTargets r)(source := None)\<rparr>) src
     = (if src = source then [] else targets_of r src)"
  "targets_of (r\<lparr>targetToSource := m\<rparr>) src = targets_of r src"
  "targets_of (r\<lparr>lastModValues := lv\<rparr>) src = targets_of r src"
  by (simp_all add: targets_of_def)

lemma router_disconnect:
  "modulationRouter (disconnect target s) =
     (case target of
        nullptr \<Rightarrow> modulationRouter s
      | Address a \<Rightarrow>
          (case targetToSource (modulationRouter s) target of
             None \<Rightarrow> modulationRouter s
           | Some source \<Rightarrow>
               (modulationRouter s)
                 \<lparr>sourceToTargets :=
                    (if removeAll target (targets_of (modulationRouter s) source) = []
                     then (sourceToTargets (modulationRouter s))(source := None)
                     else (sourceToTargets (modulationRouter s))
                            (source \<mapsto> removeAll target (targets_of (modulationRouter s) source))),
                  targetToSource := (targetToSource (modulationRouter s))(target := None)\<rparr>))"
  by (simp add: disconnect_def Let_def split: pointer.splits option.splits)

lemma targets_of_disconnect:
  "targets_of (modulationRouter (disconnect target s)) src =
     (if target \<noteq> nullptr \<and> targetToSource (modulationRouter s) target = Some src
      then removeAll target (targets_of (modulationRouter s) src)
      else targets_of (modulationRouter s) src)"
  by (auto simp: router_disconnect split: pointer.splits option.splits)

lemma targetToSource_disconnect:
  "targetToSource (modulationRouter (disconnect target s)) t =
     (if target \<noteq> nullptr \<and> t = target then None else targetToSource (modulationRouter s) t)"
  by (auto simp: router_disconnect split: pointer.splits option.splits)

lemma lastModValues_disconnect [simp]:
  "lastModValues (modulationRouter (disconnect target s)) = lastModValues (modulationRouter s)"
  by (auto simp: router_disconnect split: pointer.splits option.splits)

lemma inv_disconnect:
  assumes "router_inv (modulationRouter s)"
  shows "router_inv (modulationRouter (disconnect target s))"
  using assms unfolding router_inv_def targets_of_disconnect targetToSource_disconnect
  by (auto simp: distinct_removeAll)

lemma disconnect_not_in_lists:
  assumes "router_inv (modulationRouter s)" and "target \<noteq> nullptr"
  shows "target \<notin> set (targets_of (modulationRouter (disconnect target s)) source)"
  using assms unfolding router_inv_def targets_of_disconnect by auto

lemma router_connect_target:
  "modulationRouter (connect_target source a s) =
     (let r = modulationRouter (disconnect (Address a) s)
      in r\<lparr>sourceToTargets := (sourceToTargets r)(source \<mapsto> targets_of r source @ [Address a]),
           targetToSource := (targetToSource r)(Address a \<mapsto> source)\<rparr>)"
  by (simp add: connect_target_def Let_def split: ModulationSourceType.splits)

lemma targets_of_connect_target:
  "targets_of (modulationRouter (connect_target source a s)) src =
     (if src = source
      then targets_of (modulationRouter (disconnect (Address a) s)) source @ [Address a]
      else targets_of (modulationRouter (disconnect (Address a) s)) src)"
  by (simp add: router_connect_target Let_def)

lemma targetToSource_connect_target:
  "targetToSource (modulationRouter (connect_target source a s)) t =
     (if t = Address a then Some source
      else targetToSource (modulationRouter (disconnect (Address a) s)) t)"
  by (simp add: router_connect_target Let_def)

lemma lastModValues_connect_target [simp]:
  "lastModValues (modulationRouter (connect_target source a s)) = lastModValues (modulationRouter s)"
  by (simp add: router_connect_target Let_def)

lemma inv_connect_target:
  assumes "router_inv (modulationRouter s)"
  shows "router_inv (modulationRouter (connect_target source a s))"
proof -
  let ?r = "modulationRouter (disconnect (Address a) s)"
  have i: "router_inv ?r" using assms by (rule inv_disconnect)
  have n: "\<And>src. Address a \<notin> set (targets_of ?r src)"
    using disconnect_not_in_lists [OF assms, of "Address a"] by simp
  show ?thesis
    using i n unfolding router_inv_def targets_of_connect_target targetToSource_connect_target
    by auto
qed

lemma router_pushModulationValue:
  "targets_of (modulationRouter (pushModulationValue source v s)) src
     = (if src = source then filter (\<lambda>t. t \<noteq> nullptr) (targets_of (modulationRouter s) src)
        else targets_of (modulationRouter s) src)"
  "targetToSource (modulationRouter (pushModulationValue source v s)) = targetToSource (modulationRouter s)"
  "lastModValues (modulationRouter (pushModulationValue source v s))
     = (lastModValues (modulationRouter s))(source \<mapsto> v)"
  by (auto simp: pushModulationValue_def Let_def targets_of_def split: option.splits)

lemma inv_pushModulationValue:
  assumes "router_inv (modulationRouter s)"
  shows "router_inv (modulationRouter (pushModulationValue source v s))"
proof -
  have "filter (\<lambda>t. t \<noteq> nullptr) (targets_of (modulationRouter s) src) = targets_of (modulationRouter s) src" for src
    using assms unfolding router_inv_def by (auto intro: filter_True)
  then have eq: "targets_of (modulationRouter (pushModulationValue source v s)) src
      = targets_of (modulationRouter s) src" for src
    by (simp add: router_pushModulationValue)
  have "router_inv (modulationRouter (pushModulationValue source v s))
          = router_inv (modulationRouter s)"
    unfolding router_inv_def eq router_pushModulationValue(2) ..
  then show ?thesis using assms by blast
qed

lemma router_disconnect_targets:
  "modulationRouter (disconnect_targets ts s) =
     (modulationRouter s)\<lparr>targetToSource :=
        (\<lambda>t. if t \<in> set ts \<and> t \<noteq> nullptr then None else targetToSource (modulationRouter s) t)\<rparr>"
proof (induction ts s rule: disconnect_targets.induct)
  case (1 s)
  then show ?case by simp
next
  case (2 ts s)
  then show ?case by (auto intro!: arg_cong2 [where f = "\<lambda>r m. r\<lparr>targetToSource := m\<rparr>"])
next
  case (3 a ts s)
  show ?case
    unfolding disconnect_targets.simps Let_def "3.IH" [OF refl refl refl refl]
    by (auto intro!: ModulationRouter.equality)
qed

lemma router_disconnectAllTargetsUsing:
  "targets_of (modulationRouter (disconnectAllTargetsUsing source s)) src
     = (if src = source then [] else targets_of (modulationRouter s) src)"
  "targetToSource (modulationRouter (disconnectAllTargetsUsing source s)) t
     = (if t \<in> set (targets_of (modulationRouter s) source) \<and> t \<noteq> nullptr then None
        else targetToSource (modulationRouter s) t)"
  "lastModValues (modulationRouter (disconnectAllTargetsUsing source s)) = lastModValues (modulationRouter s)"
  by (auto simp: disconnectAllTargetsUsing_def Let_def router_disconnect_targets targets_of_def
      split: option.splits)

lemma inv_disconnectAllTargetsUsing:
  assumes "router_inv (modulationRouter s)"
  shows "router_inv (modulationRouter (disconnectAllTargetsUsing source s))"
  using assms unfolding router_inv_def router_disconnectAllTargetsUsing
  by auto

lemma inv_init: "router_inv ModulationRouter_init"
  by (simp add: router_inv_def ModulationRouter_init_def targets_of_def)

lemma router_retriggerPush [simp]:
  "modulationRouter (retriggerPush source s) = modulationRouter s"
  by (simp add: retriggerPush_def split: option.splits)

lemma reachable_inv: "reachable s \<Longrightarrow> router_inv (modulationRouter s)"
proof (induction rule: reachable.induct)
  case (r_init s)
  then show ?case by (simp add: inv_init)
next
  case (r_outside s ap obs ks)
  then show ?case by simp
next
  case (r_connect s source target s')
  then show ?case by (auto simp: connect_def inv_connect_target split: pointer.splits)
next
  case (r_disconnect s target)
  then show ?case by (simp add: inv_disconnect)
next
  case (r_unregisterTarget s target)
  then show ?case by (simp add: unregisterTarget_def inv_disconnect)
next
  case (r_push s source v)
  then show ?case by (simp add: inv_pushModulationValue)
next
  case (r_disconnectAllTargetsUsing s source)
  then show ?case by (simp add: inv_disconnectAllTargetsUsing)
next
  case (r_disconnectAll s)
  then show ?case by (simp add: disconnectAll_def inv_init)
next
  case (r_retriggerPush s source)
  then show ?case by simp
next
  case (r_connectIfAlive s source target s')
  then show ?case
    by (auto simp: connectIfAlive_def connect_def inv_connect_target
        split: if_splits option.splits pointer.splits)
qed

lemma call_setModulationValue_router_upd:
  "call_setModulationValue a v (s\<lparr>modulationRouter := r\<rparr>)
     = (call_setModulationValue a v s)\<lparr>modulationRouter := r\<rparr>"
  by (simp add: call_setModulationValue_def case_prod_beta)

lemma push_to_targets_router_upd:
  "push_to_targets v ts (s\<lparr>modulationRouter := r\<rparr>)
     = (push_to_targets v ts s)\<lparr>modulationRouter := r\<rparr>"
  by (induction v ts s rule: push_to_targets.induct)
     (simp_all add: call_setModulationValue_router_upd)


lemma objects_call_setModulationValue:
  "objects (call_setModulationValue a v s) b
     = (if b = a then fst (setModulationValue v (objects s a) (apvts s)) else objects s b)"
  by (simp add: call_setModulationValue_def case_prod_beta)

lemma apvts_call_setModulationValue:
  "apvts (call_setModulationValue a v s) = snd (setModulationValue v (objects s a) (apvts s))"
  by (simp add: call_setModulationValue_def case_prod_beta)

lemma parameter_of_setModulationValue [simp]:
  "parameter_of (fst (setModulationValue v t ap)) = parameter_of t"
  by (simp add: setModulationValue_def parameter_of_def Knob_setModulationValue_def
      ModulationTarget_setModulationValue_def Let_def case_prod_beta
      split: ModulatableParameter.splits option.splits)

lemma setValueNotifyingHost_other:
  "pid' \<noteq> pid \<Longrightarrow> setValueNotifyingHost pid' x ap pid = ap pid"
  by (simp add: setValueNotifyingHost_def split: option.splits)

lemma setModulationValue_other_parameter:
  "parameter_of t \<noteq> Some pid \<Longrightarrow> snd (setModulationValue v t ap) pid = ap pid"
  by (auto simp: setModulationValue_def parameter_of_def Knob_setModulationValue_def
      ModulationTarget_setModulationValue_def Let_def case_prod_beta setValueNotifyingHost_other
      split: ModulatableParameter.splits option.splits)

lemma objects_push_to_targets:
  "Address a \<notin> set ts \<Longrightarrow> objects (push_to_targets v ts s) a = objects s a"
  by (induction v ts s rule: push_to_targets.induct)
     (auto simp: objects_call_setModulationValue)

lemma parameter_of_push_to_targets:
  "parameter_of (objects (push_to_targets v ts s) b) = parameter_of (objects s b)"
  by (induction v ts s rule: push_to_targets.induct)
     (auto simp: objects_call_setModulationValue)

lemma apvts_push_to_targets:
  "(\<And>b. Address b \<in> set ts \<Longrightarrow> parameter_of (objects s b) \<noteq> Some pid) \<Longrightarrow>
   apvts (push_to_targets v ts s) pid = apvts s pid"
proof (induction v ts s rule: push_to_targets.induct)
  case (1 v s)
  then show ?case by simp
next
  case (2 v ts s)
  then show ?case by simp
next
  case (3 v a ts s)
  have "apvts (push_to_targets v ts (call_setModulationValue a v s)) pid
          = apvts (call_setModulationValue a v s) pid"
  proof (rule "3.IH")
    fix b assume "Address b \<in> set ts"
    then have "parameter_of (objects s b) \<noteq> Some pid" using "3.prems" by simp
    then show "parameter_of (objects (call_setModulationValue a v s) b) \<noteq> Some pid"
      by (auto simp: objects_call_setModulationValue)
  qed
  also have "\<dots> = apvts s pid"
    using "3.prems" [of a]
    by (simp add: apvts_call_setModulationValue setModulationValue_other_parameter)
  finally show ?case by simp
qed

lemma pushModulationValue_eq:
  "objects (pushModulationValue source v s)
     = objects (push_to_targets v (targets_of (modulationRouter s) source) s)"
  "apvts (pushModulationValue source v s)
     = apvts (push_to_targets v (targets_of (modulationRouter s) source) s)"
  by (simp_all add: pushModulationValue_def Let_def targets_of_def push_to_targets_router_upd
      split: option.splits)

lemma connected_iff:
  "router_inv (modulationRouter s) \<Longrightarrow>
   connected s source t \<longleftrightarrow> targetToSource (modulationRouter s) t = Some source"
  by (simp add: connected_def router_inv_def)

lemma reachable_connect_target: "reachable s \<Longrightarrow> reachable (connect_target source a s)"
  by (rule r_connect [of s source "Address a"]) (simp_all add: connect_def)

text \<open>
  Claim C1. In every state the router can reach, a target is connected to at most one
  source. After \<^verbatim>\<open>connect (A, target)\<close> and then \<^verbatim>\<open>connect (B, target)\<close> with another source
  \<open>B\<close>, the target is in the list of \<open>B\<close> and no longer in the list of \<open>A\<close>; a
  following \<^verbatim>\<open>pushModulationValue (A, v)\<close> leaves the target object as it is, and leaves
  the target's parameter as it is unless a target still connected to \<open>A\<close> is bound to
  the same parameter. Connecting two different targets to one source leaves both
  connected to it.
\<close>

theorem modulation_exclusivity:
  assumes "reachable s"
  shows "(\<forall>t A B. connected s A t \<and> connected s B t \<longrightarrow> A = B)
       \<and> (\<forall>A B a v. A \<noteq> B \<longrightarrow>
            (\<exists>s1 s2. connect A (Address a) s = Some s1 \<and> connect B (Address a) s1 = Some s2
               \<and> \<not> connected s2 A (Address a) \<and> connected s2 B (Address a)
               \<and> objects (pushModulationValue A v s2) a = objects s2 a
               \<and> (\<forall>pid. parameter_of (objects s2 a) = Some pid
                     \<and> (\<forall>b. connected s2 A (Address b) \<longrightarrow> parameter_of (objects s2 b) \<noteq> Some pid)
                     \<longrightarrow> apvts (pushModulationValue A v s2) pid = apvts s2 pid)))
       \<and> (\<forall>A a b. a \<noteq> b \<longrightarrow>
            (\<exists>s1 s2. connect A (Address a) s = Some s1 \<and> connect A (Address b) s1 = Some s2
               \<and> connected s2 A (Address a) \<and> connected s2 A (Address b)))"
proof (intro conjI allI impI)
  have i: "router_inv (modulationRouter s)" using assms by (rule reachable_inv)
  fix t A B assume "connected s A t \<and> connected s B t"
  then show "A = B" using i by (auto simp: connected_iff)
next
  fix A B :: ModulationSourceID and a :: nat and v :: real
  assume ne: "A \<noteq> B"
  let ?s1 = "connect_target A a s" and ?s2 = "connect_target B a (connect_target A a s)"
  have r2: "reachable ?s2" using assms by (intro reachable_connect_target)
  have i2: "router_inv (modulationRouter ?s2)" using r2 by (rule reachable_inv)
  have t: "targetToSource (modulationRouter ?s2) (Address a) = Some B"
    by (simp add: targetToSource_connect_target)
  have nA: "\<not> connected ?s2 A (Address a)" using i2 t ne by (simp add: connected_iff)
  have cB: "connected ?s2 B (Address a)" using i2 t by (simp add: connected_iff)
  have ob: "objects (pushModulationValue A v ?s2) a = objects ?s2 a"
    using nA by (simp add: pushModulationValue_eq objects_push_to_targets connected_def)
  have ap: "apvts (pushModulationValue A v ?s2) pid = apvts ?s2 pid"
    if "\<forall>b. connected ?s2 A (Address b) \<longrightarrow> parameter_of (objects ?s2 b) \<noteq> Some pid" for pid
    unfolding pushModulationValue_eq
    by (rule apvts_push_to_targets) (use that in \<open>simp add: connected_def\<close>)
  show "\<exists>s1 s2. connect A (Address a) s = Some s1 \<and> connect B (Address a) s1 = Some s2
               \<and> \<not> connected s2 A (Address a) \<and> connected s2 B (Address a)
               \<and> objects (pushModulationValue A v s2) a = objects s2 a
               \<and> (\<forall>pid. parameter_of (objects s2 a) = Some pid
                     \<and> (\<forall>b. connected s2 A (Address b) \<longrightarrow> parameter_of (objects s2 b) \<noteq> Some pid)
                     \<longrightarrow> apvts (pushModulationValue A v s2) pid = apvts s2 pid)"
    using nA cB ob ap by (intro exI [of _ ?s1] exI [of _ ?s2]) (simp add: connect_def)
next
  fix A :: ModulationSourceID and a b :: nat
  assume ne: "a \<noteq> b"
  let ?s1 = "connect_target A a s" and ?s2 = "connect_target A b (connect_target A a s)"
  have r2: "reachable ?s2" using assms by (intro reachable_connect_target)
  have i2: "router_inv (modulationRouter ?s2)" using r2 by (rule reachable_inv)
  have "targetToSource (modulationRouter ?s2) (Address a) = Some A"
    "targetToSource (modulationRouter ?s2) (Address b) = Some A"
    using ne by (simp_all add: targetToSource_connect_target targetToSource_disconnect)
  then show "\<exists>s1 s2. connect A (Address a) s = Some s1 \<and> connect A (Address b) s1 = Some s2
               \<and> connected s2 A (Address a) \<and> connected s2 A (Address b)"
    using i2 by (intro exI [of _ ?s1] exI [of _ ?s2]) (simp add: connect_def connected_iff)
qed

lemma reachable_example: "reachable example_processor"
  by (rule r_init) (simp add: example_processor_def)

theorem modulation_exclusivity_witness:
  "reachable example_processor
   \<and> (\<exists>s1 s2. connect (SourceID Source_Envelope 0) (Address 0) example_processor = Some s1
         \<and> connect (SourceID Source_LFO 0) (Address 0) s1 = Some s2
         \<and> \<not> connected s2 (SourceID Source_Envelope 0) (Address 0)
         \<and> connected s2 (SourceID Source_LFO 0) (Address 0)
         \<and> objects (pushModulationValue (SourceID Source_Envelope 0) (3 / 4) s2) 0 = objects s2 0)
   \<and> (\<exists>s1 s2. connect (SourceID Source_Envelope 0) (Address 0) example_processor = Some s1
         \<and> connect (SourceID Source_Envelope 0) (Address 1) s1 = Some s2
         \<and> connected s2 (SourceID Source_Envelope 0) (Address 0)
         \<and> connected s2 (SourceID Source_Envelope 0) (Address 1))"
proof -
  have r: "reachable example_processor"
    by (rule r_init) (simp add: example_processor_def)
  have ne: "SourceID Source_Envelope 0 \<noteq> SourceID Source_LFO 0" "(0::nat) \<noteq> 1" by simp_all
  note t = modulation_exclusivity [OF r]
  from t have b: "\<forall>A B a v. A \<noteq> B \<longrightarrow>
            (\<exists>s1 s2. connect A (Address a) example_processor = Some s1 \<and> connect B (Address a) s1 = Some s2
               \<and> \<not> connected s2 A (Address a) \<and> connected s2 B (Address a)
               \<and> objects (pushModulationValue A v s2) a = objects s2 a
               \<and> (\<forall>pid. parameter_of (objects s2 a) = Some pid
                     \<and> (\<forall>b. connected s2 A (Address b) \<longrightarrow> parameter_of (objects s2 b) \<noteq> Some pid)
                     \<longrightarrow> apvts (pushModulationValue A v s2) pid = apvts s2 pid))"
    by (elim conjE)
  from t have c: "\<forall>A a b. a \<noteq> b \<longrightarrow>
            (\<exists>s1 s2. connect A (Address a) example_processor = Some s1 \<and> connect A (Address b) s1 = Some s2
               \<and> connected s2 A (Address a) \<and> connected s2 A (Address b))"
    by (elim conjE)
  from b ne(1) have b': "\<exists>s1 s2. connect (SourceID Source_Envelope 0) (Address 0) example_processor = Some s1
         \<and> connect (SourceID Source_LFO 0) (Address 0) s1 = Some s2
         \<and> \<not> connected s2 (SourceID Source_Envelope 0) (Address 0)
         \<and> connected s2 (SourceID Source_LFO 0) (Address 0)
         \<and> objects (pushModulationValue (SourceID Source_Envelope 0) (3 / 4) s2) 0 = objects s2 0"
    by blast
  from c ne(2) have c': "\<exists>s1 s2. connect (SourceID Source_Envelope 0) (Address 0) example_processor = Some s1
         \<and> connect (SourceID Source_Envelope 0) (Address 1) s1 = Some s2
         \<and> connected s2 (SourceID Source_Envelope 0) (Address 0)
         \<and> connected s2 (SourceID Source_Envelope 0) (Address 1)"
    by blast
  from r b' c' show ?thesis by blast
qed



lemmas router_eval =
  connectIfAlive_def connect_def retriggerPush_def pushModulationValue_def connect_target_def
  disconnect_def targets_of_def call_setModulationMode_def call_clearModulation_def
  call_setModulationValue_def setModulationValue_def setModulationMode_def clearModulation_def
  Knob_setModulationValue_def ModulationTarget_setModulationValue_def Knob_setModulationMode_def
  setValueNotifyingHost_def jmap_def jlimit_def setValue_def setMode_def clear_def setRange_def
  getRange_def getMode_def ModulationRouter_init_def KnobModulationEngine_init_def
  example_processor_def example_apvts_def example_knob_def example_proxy_def
  getSourceForTarget_def value_of_def Let_def


lemma late_connect_knob_example:
  "connectIfAlive (SourceID Source_LFO 0) (Address 0)
      (pushModulationValue (SourceID Source_LFO 0) (3 / 4) example_processor) = Some s'
   \<Longrightarrow> value_of (apvts s') ''FILTER1_CUTOFF'' = Some (3 / 4)"
  by (auto simp add: router_eval)


lemma setModulationMode_Manual_apvts:
  "setModulationMode Mode_Manual t ap = setModulationMode Mode_Manual t ap'"
  by (simp add: setModulationMode_def Knob_setModulationMode_def Let_def
      split: ModulatableParameter.splits)

lemma knob_param_preserved [simp]:
  "knob_param (setModulationMode m t ap) = knob_param t"
  "knob_param (clearModulation t) = knob_param t"
  "knob_param (fst (setModulationValue v t ap)) = knob_param t"
  by (simp_all add: knob_param_def setModulationMode_def Knob_setModulationMode_def
      clearModulation_def setModulationValue_def Knob_setModulationValue_def
      ModulationTarget_setModulationValue_def Let_def case_prod_beta
      split: ModulatableParameter.splits option.splits)

lemma cleared_idem:
  "setModulationMode Mode_Manual (clearModulation (setModulationMode Mode_Manual (clearModulation t) ap)) ap'
     = setModulationMode Mode_Manual (clearModulation t) ap"
  by (simp add: setModulationMode_def Knob_setModulationMode_def clearModulation_def Let_def
      setMode_def clear_def split: ModulatableParameter.splits)

lemma cleared_mode_range:
  "getModulationMode (setModulationMode Mode_Manual (clearModulation t) ap) = Mode_Manual"
  "getModulationRange (setModulationMode Mode_Manual (clearModulation t) ap) = (0, 1)"
  by (simp_all add: setModulationMode_def Knob_setModulationMode_def clearModulation_def Let_def
      setMode_def clear_def getModulationMode_def getModulationRange_def getMode_def getRange_def
      split: ModulatableParameter.splits)

lemma reset_param_idem [simp]: "reset_param (reset_param x) = reset_param x"
  by (cases x) (simp_all add: reset_param_def)

lemma apvts_reset_to_default:
  "apvts (reset_to_default a s) pid
     = (if knob_param (objects s a) = Some pid then reset_param (apvts s pid) else apvts s pid)"
  by (auto simp: reset_to_default_def knob_param_def reset_param_def setValueNotifyingHost_def
      split: ModulatableParameter.splits option.splits)

lemma objects_reset_to_default [simp]: "objects (reset_to_default a s) = objects s"
  by (simp add: reset_to_default_def split: ModulatableParameter.splits option.splits)

lemma objects_disconnect_targets:
  "objects (disconnect_targets ts s) a
     = (if Address a \<in> set ts
        then setModulationMode Mode_Manual (clearModulation (objects s a)) (apvts s)
        else objects s a)"
proof (induction ts s rule: disconnect_targets.induct)
  case (1 s)
  then show ?case by simp
next
  case (2 ts s)
  then show ?case by simp
next
  case (3 b ts s)
  show ?case
    unfolding disconnect_targets.simps Let_def "3.IH" [OF refl refl refl refl]
    by (auto simp: call_setModulationMode_def call_clearModulation_def cleared_idem
        intro: setModulationMode_Manual_apvts)
qed

lemma apvts_disconnect_targets:
  "apvts (disconnect_targets ts s) pid
     = (if \<exists>a. Address a \<in> set ts \<and> knob_param (objects s a) = Some pid
        then reset_param (apvts s pid) else apvts s pid)"
proof (induction ts s rule: disconnect_targets.induct)
  case (1 s)
  then show ?case by simp
next
  case (2 ts s)
  then show ?case by simp
next
  case (3 b ts s)
  let ?s1 = "call_setModulationMode b Mode_Manual (call_clearModulation b s)"
  let ?s2 = "reset_to_default b ?s1"
  let ?s3 = "?s2\<lparr>modulationRouter := (modulationRouter ?s2)\<lparr>targetToSource :=
                (targetToSource (modulationRouter ?s2))(Address b := None)\<rparr>\<rparr>"
  have kp: "knob_param (objects ?s3 a) = knob_param (objects s a)" for a
    by (simp add: call_setModulationMode_def call_clearModulation_def)
  have ap: "apvts ?s3 pid = (if knob_param (objects s b) = Some pid
                             then reset_param (apvts s pid) else apvts s pid)"
    by (simp add: apvts_reset_to_default call_setModulationMode_def call_clearModulation_def)
  have "apvts (disconnect_targets (Address b # ts) s) pid = apvts (disconnect_targets ts ?s3) pid"
    by (simp add: Let_def)
  also have "\<dots> = (if \<exists>a. Address a \<in> set ts \<and> knob_param (objects ?s3 a) = Some pid
                    then reset_param (apvts ?s3 pid) else apvts ?s3 pid)"
    by (rule "3.IH" [OF refl refl refl refl])
  finally show ?case unfolding kp ap by auto
qed

lemma disconnectAllTargetsUsing_fields:
  "objects (disconnectAllTargetsUsing source s) a
     = (if connected s source (Address a)
        then setModulationMode Mode_Manual (clearModulation (objects s a)) (apvts s)
        else objects s a)"
  "apvts (disconnectAllTargetsUsing source s) pid
     = (if \<exists>a. connected s source (Address a) \<and> knob_param (objects s a) = Some pid
        then reset_param (apvts s pid) else apvts s pid)"
  by (auto simp add: disconnectAllTargetsUsing_def connected_def targets_of_def Let_def
      objects_disconnect_targets apvts_disconnect_targets split: option.splits)

text \<open>
  Claim C7 (amended). In every reachable state, \<^verbatim>\<open>disconnectAllTargetsUsing (source)\<close>
  clears every target connected to the source and sets it to Manual (mode Manual, range
  back to [0,1]); for each such target that is a \<^verbatim>\<open>Knob\<close> whose parameter exists, the
  parameter is set to its default; afterwards no target is connected to the source, in
  either map. Targets not connected to the source keep their state and their edge, the
  lists of the other sources are unchanged, and a parameter that no connected knob is
  bound to keeps its value: the parameter of a headless proxy is not reset.
\<close>

theorem disconnectAllTargetsUsing_postcondition:
  assumes "reachable s" and "s' = disconnectAllTargetsUsing source s"
  shows "(\<forall>a. connected s source (Address a) \<longrightarrow>
            objects s' a = setModulationMode Mode_Manual (clearModulation (objects s a)) (apvts s)
            \<and> getModulationMode (objects s' a) = Mode_Manual
            \<and> getModulationRange (objects s' a) = (0, 1))
       \<and> (\<forall>a k p. connected s source (Address a) \<and> objects s a = A_Knob k
                  \<and> apvts s (paramID k) = Some p \<longrightarrow>
            value_of (apvts s') (paramID k) = Some (par_default p))
       \<and> (\<forall>t. \<not> connected s' source t \<and> getSourceForTarget s' t \<noteq> Some source)
       \<and> (\<forall>a. \<not> connected s source (Address a) \<longrightarrow>
            objects s' a = objects s a
            \<and> getSourceForTarget s' (Address a) = getSourceForTarget s (Address a))
       \<and> (\<forall>other. other \<noteq> source \<longrightarrow>
            targets_of (modulationRouter s') other = targets_of (modulationRouter s) other)
       \<and> (\<forall>pid. (\<forall>a. connected s source (Address a) \<longrightarrow> knob_param (objects s a) \<noteq> Some pid) \<longrightarrow>
            apvts s' pid = apvts s pid)"
proof -
  have i: "router_inv (modulationRouter s)" using assms(1) by (rule reachable_inv)
  have i': "router_inv (modulationRouter s')"
    unfolding assms(2) using i by (rule inv_disconnectAllTargetsUsing)
  have A: "\<forall>a. connected s source (Address a) \<longrightarrow>
            objects s' a = setModulationMode Mode_Manual (clearModulation (objects s a)) (apvts s)
            \<and> getModulationMode (objects s' a) = Mode_Manual
            \<and> getModulationRange (objects s' a) = (0, 1)"
    unfolding assms(2) by (simp add: disconnectAllTargetsUsing_fields cleared_mode_range)
  have B: "\<forall>a k p. connected s source (Address a) \<and> objects s a = A_Knob k
                  \<and> apvts s (paramID k) = Some p \<longrightarrow>
            value_of (apvts s') (paramID k) = Some (par_default p)"
  proof (intro allI impI)
    fix a k p
    assume h: "connected s source (Address a) \<and> objects s a = A_Knob k \<and> apvts s (paramID k) = Some p"
    then have "\<exists>a. connected s source (Address a) \<and> knob_param (objects s a) = Some (paramID k)"
      by (auto simp: knob_param_def)
    then show "value_of (apvts s') (paramID k) = Some (par_default p)"
      unfolding assms(2) using h
      by (simp add: disconnectAllTargetsUsing_fields value_of_def reset_param_def)
  qed
  have C: "\<forall>t. \<not> connected s' source t \<and> getSourceForTarget s' t \<noteq> Some source"
  proof
    fix t
    have "\<not> connected s' source t"
      unfolding assms(2) by (simp add: connected_def router_disconnectAllTargetsUsing)
    then show "\<not> connected s' source t \<and> getSourceForTarget s' t \<noteq> Some source"
      using i' by (simp add: connected_iff getSourceForTarget_def)
  qed
  have D: "\<forall>a. \<not> connected s source (Address a) \<longrightarrow>
            objects s' a = objects s a
            \<and> getSourceForTarget s' (Address a) = getSourceForTarget s (Address a)"
    unfolding assms(2)
    by (simp add: disconnectAllTargetsUsing_fields getSourceForTarget_def
        router_disconnectAllTargetsUsing connected_def)
  have E: "\<forall>other. other \<noteq> source \<longrightarrow>
            targets_of (modulationRouter s') other = targets_of (modulationRouter s) other"
    unfolding assms(2) by (simp add: router_disconnectAllTargetsUsing)
  have F: "\<forall>pid. (\<forall>a. connected s source (Address a) \<longrightarrow> knob_param (objects s a) \<noteq> Some pid) \<longrightarrow>
            apvts s' pid = apvts s pid"
    unfolding assms(2) by (auto simp: disconnectAllTargetsUsing_fields)
  from A B C D E F show ?thesis by blast
qed

lemma example_modulated_knob:
  "connected (pushModulationValue (SourceID Source_LFO 0) (3 / 4)
                (connect_target (SourceID Source_LFO 0) 0 example_processor))
             (SourceID Source_LFO 0) (Address 0)"
  "objects (pushModulationValue (SourceID Source_LFO 0) (3 / 4)
                (connect_target (SourceID Source_LFO 0) 0 example_processor)) 0
     = A_Knob \<lparr> paramID = ''FILTER1_CUTOFF'',
                modEngine = KnobModulationEngine_init\<lparr>eng_mode := Mode_LFO, eng_value := 3 / 4\<rparr> \<rparr>"
  "apvts (pushModulationValue (SourceID Source_LFO 0) (3 / 4)
                (connect_target (SourceID Source_LFO 0) 0 example_processor)) ''FILTER1_CUTOFF''
     = Some \<lparr> par_value = 3 / 4, par_default = 1 / 2 \<rparr>"
  by (simp_all add: router_eval connected_def)

theorem disconnectAllTargetsUsing_postcondition_witness:
  "reachable (pushModulationValue (SourceID Source_LFO 0) (3 / 4)
                (connect_target (SourceID Source_LFO 0) 0 example_processor))
   \<and> value_of (apvts (pushModulationValue (SourceID Source_LFO 0) (3 / 4)
                (connect_target (SourceID Source_LFO 0) 0 example_processor))) ''FILTER1_CUTOFF''
       = Some (3 / 4)
   \<and> value_of (apvts (disconnectAllTargetsUsing (SourceID Source_LFO 0)
         (pushModulationValue (SourceID Source_LFO 0) (3 / 4)
            (connect_target (SourceID Source_LFO 0) 0 example_processor)))) ''FILTER1_CUTOFF''
       = Some (1 / 2)
   \<and> getModulationMode (objects (disconnectAllTargetsUsing (SourceID Source_LFO 0)
         (pushModulationValue (SourceID Source_LFO 0) (3 / 4)
            (connect_target (SourceID Source_LFO 0) 0 example_processor))) 0) = Mode_Manual
   \<and> getSourceForTarget (disconnectAllTargetsUsing (SourceID Source_LFO 0)
         (pushModulationValue (SourceID Source_LFO 0) (3 / 4)
            (connect_target (SourceID Source_LFO 0) 0 example_processor))) (Address 0)
       \<noteq> Some (SourceID Source_LFO 0)"
proof -
  let ?L = "SourceID Source_LFO 0"
  let ?s = "pushModulationValue ?L (3 / 4) (connect_target ?L 0 example_processor)"
  have r0: "reachable example_processor"
    by (rule r_init) (simp add: example_processor_def)
  have r: "reachable ?s"
    by (intro r_push reachable_connect_target r0)
  note t = disconnectAllTargetsUsing_postcondition [OF r refl, of ?L]
  from t example_modulated_knob(1)
  have m: "getModulationMode (objects (disconnectAllTargetsUsing ?L ?s) 0) = Mode_Manual"
    by blast
  let ?k = "\<lparr> paramID = ''FILTER1_CUTOFF'',
              modEngine = KnobModulationEngine_init\<lparr>eng_mode := Mode_LFO, eng_value := 3 / 4\<rparr> \<rparr>"
  have d: "value_of (apvts (disconnectAllTargetsUsing ?L ?s)) (paramID ?k)
           = Some (par_default \<lparr> par_value = 3 / 4, par_default = 1 / 2 \<rparr>)"
    by (rule t [THEN conjunct2, THEN conjunct1, rule_format, of 0 ?k])
       (simp add: example_modulated_knob)
  from t have g: "getSourceForTarget (disconnectAllTargetsUsing ?L ?s) (Address 0) \<noteq> Some ?L"
    by blast
  have v: "value_of (apvts ?s) ''FILTER1_CUTOFF'' = Some (3 / 4)"
    by (simp add: value_of_def example_modulated_knob(3))
  from r v d m g show ?thesis by simp
qed

text \<open>
  A headless proxy connected to the first LFO and driven to 0.75: after
  \<^verbatim>\<open>disconnectAllTargetsUsing\<close> its parameter still holds 0.75, not the default 0.5.
\<close>

theorem disconnectAllTargetsUsing_proxy_counterexample:
  "connected (pushModulationValue (SourceID Source_LFO 0) (3 / 4)
                (connect_target (SourceID Source_LFO 0) 1 example_processor))
             (SourceID Source_LFO 0) (Address 1)
   \<and> apvts (pushModulationValue (SourceID Source_LFO 0) (3 / 4)
                (connect_target (SourceID Source_LFO 0) 1 example_processor)) ''OSC1_PAN''
       = Some \<lparr> par_value = 3 / 4, par_default = 1 / 2 \<rparr>
   \<and> parameter_of (objects (pushModulationValue (SourceID Source_LFO 0) (3 / 4)
                (connect_target (SourceID Source_LFO 0) 1 example_processor)) 1) = Some ''OSC1_PAN''
   \<and> apvts (disconnectAllTargetsUsing (SourceID Source_LFO 0)
         (pushModulationValue (SourceID Source_LFO 0) (3 / 4)
            (connect_target (SourceID Source_LFO 0) 1 example_processor))) ''OSC1_PAN''
       = Some \<lparr> par_value = 3 / 4, par_default = 1 / 2 \<rparr>"
  by (simp add: router_eval connected_def parameter_of_def disconnectAllTargetsUsing_def
      reset_to_default_def)

lemma remap_in_unit_interval:
  fixes v mn mx :: real
  assumes "0 \<le> v" "v \<le> 1" "0 \<le> mn" "mn \<le> 1" "0 \<le> mx" "mx \<le> 1"
  shows "0 \<le> mn + (mx - mn) * v" and "mn + (mx - mn) * v \<le> 1"
proof -
  have e: "mn + (mx - mn) * v = (1 - v) * mn + v * mx" by (simp add: algebra_simps)
  have "0 \<le> (1 - v) * mn" "0 \<le> v * mx" using assms by simp_all
  then show "0 \<le> mn + (mx - mn) * v" unfolding e by simp
  have "(1 - v) * mn \<le> (1 - v) * 1" using assms by (intro mult_left_mono) simp_all
  moreover have "v * mx \<le> v * 1" using assms by (intro mult_left_mono) simp_all
  ultimately show "mn + (mx - mn) * v \<le> 1" unfolding e by simp
qed

text \<open>
  Claim C3 (amended). \<^verbatim>\<open>Knob::setModulationValue (v)\<close> writes
  \<open>clamp (min + (max - min) * v, 0, 1)\<close> to its parameter when the knob is in Envelope or
  LFO mode; in any other mode it writes nothing and the parameter store is unchanged.
  \<^verbatim>\<open>ModulationTarget::setModulationValue (v)\<close> writes \<open>min + (max - min) * v\<close> without a
  clamp of its own, which is the clamped value whenever \<open>v\<close>, \<open>min\<close> and \<open>max\<close> lie in
  [0,1].
\<close>

theorem setModulationValue_remap:
  "(ap (paramID k) = Some p \<longrightarrow>
      value_of (snd (Knob_setModulationValue v k ap)) (paramID k)
        = Some (if getMode (modEngine k) = Mode_Envelope \<or> getMode (modEngine k) = Mode_LFO
                then jlimit 0 1 (eng_min (modEngine k)
                                  + (eng_max (modEngine k) - eng_min (modEngine k)) * v)
                else par_value p))
   \<and> (getMode (modEngine k) \<noteq> Mode_Envelope \<and> getMode (modEngine k) \<noteq> Mode_LFO \<longrightarrow>
        snd (Knob_setModulationValue v k ap) = ap)
   \<and> (baseParam t = Some pid \<and> ap pid = Some p \<and> currentRange t = (mn, mx) \<longrightarrow>
        value_of (snd (ModulationTarget_setModulationValue v t ap)) pid = Some (mn + (mx - mn) * v)
        \<and> (0 \<le> v \<and> v \<le> 1 \<and> 0 \<le> mn \<and> mn \<le> 1 \<and> 0 \<le> mx \<and> mx \<le> 1 \<longrightarrow>
             mn + (mx - mn) * v = jlimit 0 1 (mn + (mx - mn) * v)))"
proof (intro conjI impI)
  assume "ap (paramID k) = Some p"
  then show "value_of (snd (Knob_setModulationValue v k ap)) (paramID k)
        = Some (if getMode (modEngine k) = Mode_Envelope \<or> getMode (modEngine k) = Mode_LFO
                then jlimit 0 1 (eng_min (modEngine k)
                                  + (eng_max (modEngine k) - eng_min (modEngine k)) * v)
                else par_value p)"
    by (simp add: Knob_setModulationValue_def Let_def value_of_def setValueNotifyingHost_def
        getMode_def getRange_def setValue_def)
next
  assume "getMode (modEngine k) \<noteq> Mode_Envelope \<and> getMode (modEngine k) \<noteq> Mode_LFO"
  then show "snd (Knob_setModulationValue v k ap) = ap"
    by (simp add: Knob_setModulationValue_def Let_def getMode_def setValue_def)
next
  assume "baseParam t = Some pid \<and> ap pid = Some p \<and> currentRange t = (mn, mx)"
  then show "value_of (snd (ModulationTarget_setModulationValue v t ap)) pid
               = Some (mn + (mx - mn) * v)"
    by (simp add: ModulationTarget_setModulationValue_def Let_def value_of_def
        setValueNotifyingHost_def jmap_def algebra_simps)
next
  assume "0 \<le> v \<and> v \<le> 1 \<and> 0 \<le> mn \<and> mn \<le> 1 \<and> 0 \<le> mx \<and> mx \<le> 1"
  then have "0 \<le> mn + (mx - mn) * v" "mn + (mx - mn) * v \<le> 1"
    using remap_in_unit_interval [of v mn mx] by simp_all
  then show "mn + (mx - mn) * v = jlimit 0 1 (mn + (mx - mn) * v)"
    by (simp add: jlimit_def)
qed

theorem setModulationValue_remap_witness:
  "value_of (snd (Knob_setModulationValue (3 / 4)
       \<lparr> paramID = ''FILTER1_CUTOFF'',
         modEngine = setRange (1 / 5) (3 / 5) (setMode Mode_LFO KnobModulationEngine_init) \<rparr>
       example_apvts)) ''FILTER1_CUTOFF'' = Some (1 / 2)
   \<and> snd (Knob_setModulationValue (3 / 4)
       \<lparr> paramID = ''FILTER1_CUTOFF'', modEngine = KnobModulationEngine_init \<rparr> example_apvts)
       = example_apvts
   \<and> value_of (snd (ModulationTarget_setModulationValue (3 / 4)
       \<lparr> baseParam = Some ''OSC1_PAN'', currentSourceIndex = 0, currentMode = Mode_LFO,
         currentRange = (1 / 5, 3 / 5) \<rparr> example_apvts)) ''OSC1_PAN'' = Some (1 / 2)
   \<and> (1 / 5 + (3 / 5 - 1 / 5) * (3 / 4) :: real) = jlimit 0 1 (1 / 5 + (3 / 5 - 1 / 5) * (3 / 4))"
proof -
  let ?kl = "\<lparr> paramID = ''FILTER1_CUTOFF'',
         modEngine = setRange (1 / 5) (3 / 5) (setMode Mode_LFO KnobModulationEngine_init) \<rparr>"
  let ?km = "\<lparr> paramID = ''FILTER1_CUTOFF'', modEngine = KnobModulationEngine_init \<rparr>"
  let ?t = "\<lparr> baseParam = Some ''OSC1_PAN'', currentSourceIndex = 0, currentMode = Mode_LFO,
         currentRange = (1 / 5 :: real, 3 / 5 :: real) \<rparr>"
  let ?p = "\<lparr> par_value = 1 / 5, par_default = 1 / 2 \<rparr>"
  let ?q = "\<lparr> par_value = 1 / 10, par_default = 1 / 2 \<rparr>"
  have a: "value_of (snd (Knob_setModulationValue (3 / 4) ?kl example_apvts)) ''FILTER1_CUTOFF''
             = Some (1 / 2)"
    using setModulationValue_remap [where ap = example_apvts and k = ?kl and p = ?p and v = "3 / 4"]
    by (simp add: example_apvts_def getMode_def setRange_def setMode_def
        KnobModulationEngine_init_def jlimit_def Let_def)
  have b: "snd (Knob_setModulationValue (3 / 4) ?km example_apvts) = example_apvts"
    using setModulationValue_remap [where ap = example_apvts and k = ?km and v = "3 / 4"]
    by (simp add: getMode_def KnobModulationEngine_init_def)
  have c: "value_of (snd (ModulationTarget_setModulationValue (3 / 4) ?t example_apvts)) ''OSC1_PAN''
             = Some (1 / 2)
           \<and> (1 / 5 + (3 / 5 - 1 / 5) * (3 / 4) :: real) = jlimit 0 1 (1 / 5 + (3 / 5 - 1 / 5) * (3 / 4))"
    using setModulationValue_remap [where ap = example_apvts and p = ?q and v = "3 / 4" and t = ?t
        and pid = "''OSC1_PAN''" and mn = "1 / 5" and mx = "3 / 5"]
    by (simp add: example_apvts_def)
  from a b c show ?thesis by blast
qed

text \<open>
  A knob in Manual mode with the range [0,1] receives 0.5: its parameter keeps the value
  0.2 it had, where the remap would give 0.5.
\<close>

theorem setModulationValue_manual_knob_counterexample:
  "value_of (snd (Knob_setModulationValue (1 / 2)
       \<lparr> paramID = ''FILTER1_CUTOFF'', modEngine = KnobModulationEngine_init \<rparr> example_apvts))
     ''FILTER1_CUTOFF'' = Some (1 / 5)
   \<and> getRange KnobModulationEngine_init = (0, 1)
   \<and> jlimit 0 1 (0 + (1 - 0) * (1 / 2 :: real)) = 1 / 2"
  by (simp add: Knob_setModulationValue_def Let_def getMode_def setValue_def getRange_def
      KnobModulationEngine_init_def value_of_def example_apvts_def jlimit_def)


section \<open>Verified properties: preset loading\<close>

lemma apvts_disconnect [simp]: "apvts (disconnect target s) = apvts s"
  by (simp add: disconnect_def Let_def call_setModulationMode_def call_clearModulation_def
      split: pointer.splits option.splits)

lemma apvts_connect_target [simp]: "apvts (connect_target source a s) = apvts s"
  by (simp add: connect_target_def Let_def call_setModulationMode_def
      split: ModulationSourceType.splits)

lemma knobs_disconnect [simp]: "knobs (disconnect target s) = knobs s"
  by (simp add: disconnect_def Let_def call_setModulationMode_def call_clearModulation_def
      split: pointer.splits option.splits)

lemma knob_param_disconnect [simp]:
  "knob_param (objects (disconnect target s) b) = knob_param (objects s b)"
  by (simp add: disconnect_def Let_def call_setModulationMode_def call_clearModulation_def
      split: pointer.splits option.splits)

lemma knob_param_connect_target [simp]:
  "knob_param (objects (connect_target source a s) b) = knob_param (objects s b)"
  by (simp add: connect_target_def Let_def call_setModulationMode_def
      split: ModulationSourceType.splits)

lemma knob_param_disconnectAll [simp]:
  "knob_param (objects (disconnectAll s) b) = knob_param (objects s b)"
  by (simp add: disconnectAll_def split: option.splits)

lemma restore_knob_cases:
  "restore_knob a s = (case knob_stored_source s a of None \<Rightarrow> s | Some source \<Rightarrow> connect_target source a s)"
  by (auto simp: restore_knob_def knob_stored_source_def stored_source_def knob_param_def Let_def
      split: ModulatableParameter.splits option.splits)

lemma knob_stored_source_connect_target [simp]: "knob_stored_source (connect_target source a s) b = knob_stored_source s b"
  by (simp add: knob_stored_source_def split: option.splits)

lemma knob_stored_source_restore_knob [simp]: "knob_stored_source (restore_knob a s) b = knob_stored_source s b"
  by (simp add: restore_knob_cases split: option.splits)

lemma apvts_restore_knob [simp]: "apvts (restore_knob a s) = apvts s"
  by (simp add: restore_knob_cases split: option.splits)

lemma targetToSource_restore_knob:
  "targetToSource (modulationRouter (restore_knob a s)) t
     = (if t = Address a \<and> knob_stored_source s a \<noteq> None then knob_stored_source s a
        else targetToSource (modulationRouter s) t)"
  by (auto simp: restore_knob_cases targetToSource_connect_target targetToSource_disconnect
      split: option.splits)

lemma fold_restore_knob:
  "apvts (fold restore_knob ks s) = apvts s
   \<and> (\<forall>b. knob_stored_source (fold restore_knob ks s) b = knob_stored_source s b)
   \<and> (\<forall>t. targetToSource (modulationRouter (fold restore_knob ks s)) t
        = (if \<exists>a \<in> set ks. t = Address a \<and> knob_stored_source s a \<noteq> None
           then (case t of nullptr \<Rightarrow> None | Address a \<Rightarrow> knob_stored_source s a)
           else targetToSource (modulationRouter s) t))"
proof (induction ks arbitrary: s)
  case Nil
  then show ?case by simp
next
  case (Cons k ks)
  show ?case
    unfolding fold_simps Cons.IH [of "restore_knob k s", THEN conjunct1]
      Cons.IH [of "restore_knob k s", THEN conjunct2, THEN conjunct1, rule_format]
      Cons.IH [of "restore_knob k s", THEN conjunct2, THEN conjunct2, rule_format]
    by (auto simp: targetToSource_restore_knob)
qed

lemma disconnectAll_fields [simp]:
  "apvts (disconnectAll s) = apvts s"
  "knobs (disconnectAll s) = knobs s"
  "modulationRouter (disconnectAll s) = ModulationRouter_init"
  by (simp_all add: disconnectAll_def)

lemma knob_stored_source_after_replace:
  "knob_stored_source (disconnectAll (s\<lparr>apvts := ap\<rparr>)) a
     = (case knob_param (objects s a) of None \<Rightarrow> None | Some pid \<Rightarrow> stored_source ap pid)"
  by (simp add: knob_stored_source_def split: option.splits)

text \<open>
  Claim C8. \<^verbatim>\<open>loadPreset\<close> returns false and leaves the processor (parameter store,
  targets and router) exactly as it was when the file does not parse or the tree is
  invalid. Otherwise it returns true, and the processor is the result of, in this
  order, replacing the parameter state, \<^verbatim>\<open>disconnectAll\<close> and
  \<^verbatim>\<open>restoreModulationRouting\<close>: the parameter store is the replaced one, every registered
  knob is connected to the source its stored \<^verbatim>\<open>_MOD_SOURCE\<close> and \<^verbatim>\<open>_MOD_INDEX\<close> values
  name (to none when they name none), and no other pointer has an edge.
\<close>

theorem loadPreset_atomic:
  "(parse presetFile = None \<or> (\<exists>xml. parse presetFile = Some xml \<and> \<not> isValid (fromXml xml)) \<longrightarrow>
      loadPreset parse fromXml isValid replaceState presetFile s = (False, s))
   \<and> (\<forall>xml. parse presetFile = Some xml \<and> isValid (fromXml xml) \<longrightarrow>
        loadPreset parse fromXml isValid replaceState presetFile s
          = (True, restoreModulationRouting
                     (disconnectAll (s\<lparr>apvts := replaceState (fromXml xml) (apvts s)\<rparr>))))
   \<and> (\<forall>xml s'. parse presetFile = Some xml \<and> isValid (fromXml xml)
          \<and> s' = snd (loadPreset parse fromXml isValid replaceState presetFile s) \<longrightarrow>
        apvts s' = replaceState (fromXml xml) (apvts s)
        \<and> (\<forall>a k. a \<in> set (knobs s) \<and> objects s a = A_Knob k \<longrightarrow>
              getSourceForTarget s' (Address a) = stored_source (apvts s') (paramID k))
        \<and> (\<forall>t. t \<notin> Address ` set (knobs s) \<longrightarrow> getSourceForTarget s' t = None))"
proof -
  have A: "parse presetFile = None \<or> (\<exists>xml. parse presetFile = Some xml \<and> \<not> isValid (fromXml xml)) \<longrightarrow>
      loadPreset parse fromXml isValid replaceState presetFile s = (False, s)"
    by (auto simp: loadPreset_def)
  have B: "\<forall>xml. parse presetFile = Some xml \<and> isValid (fromXml xml) \<longrightarrow>
        loadPreset parse fromXml isValid replaceState presetFile s
          = (True, restoreModulationRouting
                     (disconnectAll (s\<lparr>apvts := replaceState (fromXml xml) (apvts s)\<rparr>)))"
    by (simp add: loadPreset_def)
  have C: "apvts s' = replaceState (fromXml xml) (apvts s)
        \<and> (\<forall>a k. a \<in> set (knobs s) \<and> objects s a = A_Knob k \<longrightarrow>
              getSourceForTarget s' (Address a) = stored_source (apvts s') (paramID k))
        \<and> (\<forall>t. t \<notin> Address ` set (knobs s) \<longrightarrow> getSourceForTarget s' t = None)"
    if h: "parse presetFile = Some xml \<and> isValid (fromXml xml)
          \<and> s' = snd (loadPreset parse fromXml isValid replaceState presetFile s)" for xml s'
  proof -
    let ?ap = "replaceState (fromXml xml) (apvts s)"
    let ?d = "disconnectAll (s\<lparr>apvts := ?ap\<rparr>)"
    have s': "s' = fold restore_knob (knobs s) ?d"
      using h by (simp add: loadPreset_def restoreModulationRouting_def)
    note f = fold_restore_knob [of "knobs s" ?d]
    have ap: "apvts s' = ?ap" unfolding s' using f [THEN conjunct1] by simp
    have ts: "targetToSource (modulationRouter s') t
          = (if \<exists>a \<in> set (knobs s). t = Address a \<and> knob_stored_source ?d a \<noteq> None
             then (case t of nullptr \<Rightarrow> None | Address a \<Rightarrow> knob_stored_source ?d a)
             else None)" for t
      unfolding s' f [THEN conjunct2, THEN conjunct2, rule_format]
      by (auto simp: ModulationRouter_init_def)
    have k: "getSourceForTarget s' (Address a) = stored_source (apvts s') (paramID k)"
      if ak: "a \<in> set (knobs s) \<and> objects s a = A_Knob k" for a k
    proof -
      have w: "knob_stored_source ?d a = stored_source ?ap (paramID k)"
        using ak by (simp add: knob_stored_source_after_replace knob_param_def)
      show ?thesis
        unfolding getSourceForTarget_def ts ap using ak w by auto
    qed
    have n: "getSourceForTarget s' t = None" if "t \<notin> Address ` set (knobs s)" for t
      unfolding getSourceForTarget_def ts using that by auto
    from ap k n show ?thesis by blast
  qed
  from A B C show ?thesis by blast
qed

theorem loadPreset_atomic_witness:
  "loadPreset (\<lambda>f. if f = (0::nat) then None else Some f) (\<lambda>x. x) (\<lambda>t. t \<noteq> 1)
       (\<lambda>t ap. ap(''FILTER1_CUTOFF_MOD_SOURCE'' \<mapsto> \<lparr> par_value = 4, par_default = 0 \<rparr>,
                   ''FILTER1_CUTOFF_MOD_INDEX'' \<mapsto> \<lparr> par_value = real t, par_default = 0 \<rparr>))
       0 example_processor = (False, example_processor)
   \<and> loadPreset (\<lambda>f. if f = (0::nat) then None else Some f) (\<lambda>x. x) (\<lambda>t. t \<noteq> 1)
       (\<lambda>t ap. ap(''FILTER1_CUTOFF_MOD_SOURCE'' \<mapsto> \<lparr> par_value = 4, par_default = 0 \<rparr>,
                   ''FILTER1_CUTOFF_MOD_INDEX'' \<mapsto> \<lparr> par_value = real t, par_default = 0 \<rparr>))
       1 example_processor = (False, example_processor)
   \<and> fst (loadPreset (\<lambda>f. if f = (0::nat) then None else Some f) (\<lambda>x. x) (\<lambda>t. t \<noteq> 1)
       (\<lambda>t ap. ap(''FILTER1_CUTOFF_MOD_SOURCE'' \<mapsto> \<lparr> par_value = 4, par_default = 0 \<rparr>,
                   ''FILTER1_CUTOFF_MOD_INDEX'' \<mapsto> \<lparr> par_value = real t, par_default = 0 \<rparr>))
       2 example_processor)
   \<and> getSourceForTarget
        (snd (loadPreset (\<lambda>f. if f = (0::nat) then None else Some f) (\<lambda>x. x) (\<lambda>t. t \<noteq> 1)
       (\<lambda>t ap. ap(''FILTER1_CUTOFF_MOD_SOURCE'' \<mapsto> \<lparr> par_value = 4, par_default = 0 \<rparr>,
                   ''FILTER1_CUTOFF_MOD_INDEX'' \<mapsto> \<lparr> par_value = real t, par_default = 0 \<rparr>))
       2 example_processor)) (Address 0) = Some (SourceID Source_LFO 2)
   \<and> getSourceForTarget
        (snd (loadPreset (\<lambda>f. if f = (0::nat) then None else Some f) (\<lambda>x. x) (\<lambda>t. t \<noteq> 1)
       (\<lambda>t ap. ap(''FILTER1_CUTOFF_MOD_SOURCE'' \<mapsto> \<lparr> par_value = 4, par_default = 0 \<rparr>,
                   ''FILTER1_CUTOFF_MOD_INDEX'' \<mapsto> \<lparr> par_value = real t, par_default = 0 \<rparr>))
       2 example_processor)) (Address 1) = None"
proof -
  let ?parse = "\<lambda>f. if f = (0::nat) then None else Some f"
  let ?fromXml = "\<lambda>x::nat. x"
  let ?isValid = "\<lambda>t::nat. t \<noteq> 1"
  let ?replace = "\<lambda>(t::nat) (ap::APVTS).
      ap(''FILTER1_CUTOFF_MOD_SOURCE'' \<mapsto> \<lparr> par_value = 4, par_default = 0 \<rparr>,
         ''FILTER1_CUTOFF_MOD_INDEX'' \<mapsto> \<lparr> par_value = real t, par_default = 0 \<rparr>)"
  let ?load = "\<lambda>f. loadPreset ?parse ?fromXml ?isValid ?replace f example_processor"
  have a: "?load 0 = (False, example_processor)"
    using loadPreset_atomic [of ?parse 0 ?isValid ?fromXml ?replace example_processor] by simp
  have b: "?load 1 = (False, example_processor)"
    using loadPreset_atomic [of ?parse 1 ?isValid ?fromXml ?replace example_processor] by simp
  note t = loadPreset_atomic [of ?parse 2 ?isValid ?fromXml ?replace example_processor]
  have c: "fst (?load 2)" using t by simp
  have ok: "?parse 2 = Some 2 \<and> ?isValid (?fromXml 2) \<and> snd (?load 2) = snd (?load 2)" by simp
  note u = t [THEN conjunct2, THEN conjunct2, rule_format, OF ok]
  have ap: "apvts (snd (?load 2)) = ?replace (?fromXml 2) (apvts example_processor)"
    using u by blast
  have k: "(0::nat) \<in> set (knobs example_processor)
      \<and> objects example_processor 0
          = A_Knob \<lparr> paramID = ''FILTER1_CUTOFF'', modEngine = KnobModulationEngine_init \<rparr>"
    by (simp add: example_processor_def example_knob_def)
  have "getSourceForTarget (snd (?load 2)) (Address 0)
          = stored_source (apvts (snd (?load 2)))
              (paramID \<lparr> paramID = ''FILTER1_CUTOFF'', modEngine = KnobModulationEngine_init \<rparr>)"
    by (rule u [THEN conjunct2, THEN conjunct1, rule_format, OF k])
  then have d: "getSourceForTarget (snd (?load 2)) (Address 0) = Some (SourceID Source_LFO 2)"
    unfolding ap
    by (simp add: stored_source_def to_ModulationMode_def static_cast_int_def)
  have "Address 1 \<notin> Address ` set (knobs example_processor)"
    by (simp add: example_processor_def)
  then have e: "getSourceForTarget (snd (?load 2)) (Address 1) = None"
    using u by blast
  from a b c d e show ?thesis by blast
qed


section \<open>Verified properties: envelope\<close>

lemma length_noteOn_loop [simp]: "length (noteOn_loop e note vs) = length vs"
  by (induction vs) (simp_all add: Let_def)









lemma state_after_ADSR_noteOn: "state (ADSR_noteOn a) \<noteq> State_idle \<and> state (ADSR_noteOn a) \<noteq> State_release"
  by (simp add: ADSR_noteOn_def)

lemma state_recalculateRates:
  "state a \<noteq> State_idle \<Longrightarrow> state a \<noteq> State_release \<Longrightarrow>
   state (recalculateRates a) \<noteq> State_idle"
  by (auto simp: recalculateRates_def goToNextState_def Let_def)

lemma parameters_recalculateRates:
  "state a \<noteq> State_release \<Longrightarrow> parameters (recalculateRates a) = parameters a"
  by (auto simp: recalculateRates_def goToNextState_def Let_def)

lemma EnvelopeADSR_noteOn_instant:
  assumes "adsr_mode a = AutoRelease"
    and "attack (parameters a) \<le> 1 / 10000" and "release (parameters a) \<le> 1 / 10000"
  shows "release (parameters (EnvelopeADSR_noteOn a)) = 5 / 100
       \<and> state (EnvelopeADSR_noteOn a) = State_release
       \<and> releaseTriggered (EnvelopeADSR_noteOn a)
       \<and> attackEnded (EnvelopeADSR_noteOn a)"
proof -
  let ?a1 = "(ADSR_noteOn a)\<lparr>attackEnded := False, releaseTriggered := False\<rparr>"
  let ?a2 = "?a1\<lparr>attackEnded := True\<rparr>"
  let ?p = "(parameters ?a1)\<lparr>release := 5 / 100\<rparr>"
  let ?a3 = "ADSR_setParameters ?p ?a2"
  have p1: "parameters ?a1 = parameters a" "adsr_mode ?a1 = AutoRelease"
    using assms(1) by (simp_all add: ADSR_noteOn_def)
  have s2: "state (?a2\<lparr>parameters := ?p\<rparr>) \<noteq> State_idle" "state (?a2\<lparr>parameters := ?p\<rparr>) \<noteq> State_release"
    using state_after_ADSR_noteOn [of a] by simp_all
  have s3: "state ?a3 \<noteq> State_idle"
    unfolding ADSR_setParameters_def by (rule state_recalculateRates [OF s2])
  have p3: "parameters ?a3 = ?p"
    unfolding ADSR_setParameters_def using parameters_recalculateRates [OF s2(2)] by simp
  have f3: "attackEnded ?a3" 
    by (auto simp: ADSR_setParameters_def recalculateRates_def goToNextState_def Let_def ADSR_reset_def)
  have e: "EnvelopeADSR_noteOn a = (ADSR_noteOff ?a3)\<lparr>releaseTriggered := True\<rparr>"
    using assms p1 by (simp add: EnvelopeADSR_noteOn_def Let_def getParameters_def)
  have off: "ADSR_noteOff ?a3 = ?a3\<lparr>releaseRate := envelopeVal ?a3 / (release (parameters ?a3) * adsr_sampleRate ?a3),
                   state := State_release\<rparr>"
    using s3 p3 by (simp add: ADSR_noteOff_def)
  show ?thesis unfolding e off using p3 f3 by simp
qed


lemma EnvelopeADSR_noteOn_zero_attack_pulse:
  "envelopeVal (EnvelopeADSR_noteOn
      (ADSR_setParameters \<lparr> attack = 0, decay = 1 / 10, sustain = 1 / 2, release = 0 \<rparr>
         (EnvelopeADSR_setMode AutoRelease EnvelopeADSR_init))) = 1
   \<and> releaseRate (EnvelopeADSR_noteOn
      (ADSR_setParameters \<lparr> attack = 0, decay = 1 / 10, sustain = 1 / 2, release = 0 \<rparr>
         (EnvelopeADSR_setMode AutoRelease EnvelopeADSR_init))) = 1 / 2205"
  by code_simp


section \<open>Verified properties: oscillator\<close>

lemma voice_step_pending [simp]:
  "voice_step osc (note\<lparr>pendingNoteOff := b\<rparr>) env drawn = voice_step osc note env drawn"
  by (intro ext) (simp add: voice_step_def)

lemma voice_loop_pending [simp]:
  "voice_loop osc (note\<lparr>pendingNoteOff := b\<rparr>) env drawn = voice_loop osc note env drawn"
  by (simp add: voice_loop_def)

lemma process_note_parts:
  "process_note osc drawn midi note e =
     (let env = fst (getNextSampleForNote midi e);
          e1 = snd (getNextSampleForNote midi e);
          acc = voice_loop osc note env drawn;
          fire = (pendingNoteOff note \<and> zero_crossing (lastSample note) (sumSample acc))
      in ((voiceLeft acc * (if totalGain acc > 0 then volume osc / sqrt (totalGain acc) else 0),
           voiceRight acc * (if totalGain acc > 0 then volume osc / sqrt (totalGain acc) else 0)),
          fire,
          note\<lparr>phases := new_phases acc,
               pendingNoteOff := (if fire then False else pendingNoteOff note),
               lastSample := sumSample acc\<rparr>,
          (if fire then Envelope_noteOff midi e1 else e1)))"
  by (simp add: process_note_def Let_def case_prod_beta)

lemma process_note_gate:
  assumes "process_note osc drawn midi note e = (out, fire, note1, e2)"
  shows "fire = (pendingNoteOff note \<and> zero_crossing (lastSample note) (lastSample note1))"
    and "pendingNoteOff note1 = (pendingNoteOff note \<and> \<not> fire)"
    and "e2 = (if fire then Envelope_noteOff midi (snd (getNextSampleForNote midi e))
               else snd (getNextSampleForNote midi e))"
  using assms unfolding process_note_parts Let_def by auto

lemma process_note_audio:
  "fst (process_note osc drawn midi (note\<lparr>pendingNoteOff := b\<rparr>) e)
     = fst (process_note osc drawn midi note e)"
  by (simp add: process_note_parts Let_def)

lemma sign_change_at_Cons:
  "sign_change_at s0 (s # ss) 0 = zero_crossing s0 s"
  "sign_change_at s0 (s # ss) (Suc i) = sign_change_at s ss i"
  by (simp_all add: sign_change_at_def)

lemma note_run_length [simp]: "length (fst (note_run osc midi ds nd e)) = length ds"
  by (induction ds arbitrary: nd e) (simp_all add: case_prod_beta Let_def)

lemma note_run_trace:
  "i < length ds \<Longrightarrow>
   fst (fst (note_run osc midi ds nd e) ! i)
     = (pendingNoteOff nd
        \<and> sign_change_at (lastSample nd) (map snd (fst (note_run osc midi ds nd e))) i
        \<and> (\<forall>j < i. \<not> sign_change_at (lastSample nd) (map snd (fst (note_run osc midi ds nd e))) j))"
proof (induction ds arbitrary: nd e i)
  case Nil
  then show ?case by simp
next
  case (Cons d ds)
  obtain out fire nd1 e1 where p: "process_note osc d midi nd e = (out, fire, nd1, e1)"
    by (cases "process_note osc d midi nd e") auto
  let ?tr = "fst (note_run osc midi ds nd1 e1)"
  have run: "fst (note_run osc midi (d # ds) nd e) = (fire, lastSample nd1) # ?tr"
    using p by (simp add: case_prod_beta Let_def)
  note g = process_note_gate [OF p]
  show ?case
  proof (cases i)
    case 0
    then show ?thesis unfolding run using g(1) by (simp add: sign_change_at_Cons)
  next
    case (Suc k)
    then have k: "k < length ds" using Cons.prems by simp
    have IH: "fst (?tr ! k)
        = (pendingNoteOff nd1 \<and> sign_change_at (lastSample nd1) (map snd ?tr) k
           \<and> (\<forall>j < k. \<not> sign_change_at (lastSample nd1) (map snd ?tr) j))"
      by (rule Cons.IH [OF k])
    have all: "(\<forall>j < Suc k. \<not> sign_change_at (lastSample nd) (lastSample nd1 # map snd ?tr) j)
        = (\<not> zero_crossing (lastSample nd) (lastSample nd1)
           \<and> (\<forall>j < k. \<not> sign_change_at (lastSample nd1) (map snd ?tr) j))"
      by (auto simp: less_Suc_eq_0_disj sign_change_at_Cons)
    show ?thesis
      unfolding run Suc using IH g(1,2) all
      by (auto simp: sign_change_at_Cons)
  qed
qed

lemma note_run_pending:
  "pendingNoteOff (fst (snd (note_run osc midi ds nd e)))
     = (pendingNoteOff nd
        \<and> (\<forall>i < length ds. \<not> sign_change_at (lastSample nd)
                                (map snd (fst (note_run osc midi ds nd e))) i))"
proof (induction ds arbitrary: nd e)
  case Nil
  then show ?case by simp
next
  case (Cons d ds)
  obtain out fire nd1 e1 where p: "process_note osc d midi nd e = (out, fire, nd1, e1)"
    by (cases "process_note osc d midi nd e") auto
  let ?tr = "fst (note_run osc midi ds nd1 e1)"
  have run: "fst (note_run osc midi (d # ds) nd e) = (fire, lastSample nd1) # ?tr"
    "fst (snd (note_run osc midi (d # ds) nd e)) = fst (snd (note_run osc midi ds nd1 e1))"
    using p by (simp_all add: case_prod_beta Let_def)
  note g = process_note_gate [OF p]
  have all: "(\<forall>i < length (d # ds). \<not> sign_change_at (lastSample nd) (lastSample nd1 # map snd ?tr) i)
        = (\<not> zero_crossing (lastSample nd) (lastSample nd1)
           \<and> (\<forall>j < length ds. \<not> sign_change_at (lastSample nd1) (map snd ?tr) j))"
    by (auto simp: less_Suc_eq_0_disj sign_change_at_Cons)
  show ?case unfolding run using Cons.IH [of nd1 e1] g(1,2) all by auto
qed

lemma note_run_count:
  "length (filter fst (fst (note_run osc midi ds nd e))) \<le> (if pendingNoteOff nd then 1 else 0)"
proof (induction ds arbitrary: nd e)
  case Nil
  then show ?case by simp
next
  case (Cons d ds)
  obtain out fire nd1 e1 where p: "process_note osc d midi nd e = (out, fire, nd1, e1)"
    by (cases "process_note osc d midi nd e") auto
  have run: "fst (note_run osc midi (d # ds) nd e)
               = (fire, lastSample nd1) # fst (note_run osc midi ds nd1 e1)"
    using p by (simp add: case_prod_beta Let_def)
  note g = process_note_gate [OF p]
  show ?case unfolding run using Cons.IH [of nd1 e1] g(1,2) by (auto split: if_splits)
qed

lemma notes_loop_fired:
  "notes_loop osc drawn ns e = (tot, fired, ns', e') \<Longrightarrow>
   map fst ns' = map fst ns
   \<and> (\<forall>m \<in> set fired. \<exists>i < length ns. fst (ns ! i) = m
          \<and> pendingNoteOff (snd (ns ! i))
          \<and> zero_crossing (lastSample (snd (ns ! i))) (lastSample (snd (ns' ! i)))
          \<and> \<not> pendingNoteOff (snd (ns' ! i)))"
proof (induction ns arbitrary: e tot fired ns' e')
  case Nil
  then show ?case by simp
next
  case (Cons a ns)
  obtain midi nd where a: "a = (midi, nd)" by (cases a)
  show ?case
  proof (cases "length (phases nd) < voices osc")
    case True
    obtain t f r e1 where rec: "notes_loop osc drawn ns e = (t, f, r, e1)"
      by (cases "notes_loop osc drawn ns e") auto
    have eq: "fired = f" "ns' = (midi, nd) # r"
      using Cons.prems True rec unfolding a by simp_all
    note IH = Cons.IH [OF rec]
    show ?thesis
    proof (intro conjI ballI)
      show "map fst ns' = map fst (a # ns)" using IH eq a by simp
    next
      fix m assume "m \<in> set fired"
      then obtain i where "i < length ns" "fst (ns ! i) = m" "pendingNoteOff (snd (ns ! i))"
        "zero_crossing (lastSample (snd (ns ! i))) (lastSample (snd (r ! i)))"
        "\<not> pendingNoteOff (snd (r ! i))"
        using IH eq by blast
      then show "\<exists>i < length (a # ns). fst ((a # ns) ! i) = m
          \<and> pendingNoteOff (snd ((a # ns) ! i))
          \<and> zero_crossing (lastSample (snd ((a # ns) ! i))) (lastSample (snd (ns' ! i)))
          \<and> \<not> pendingNoteOff (snd (ns' ! i))"
        unfolding eq by (intro exI [of _ "Suc i"]) simp
    qed
  next
    case False
    obtain out fire nd1 e1 where p: "process_note osc (drawn midi) midi nd e = (out, fire, nd1, e1)"
      by (cases "process_note osc (drawn midi) midi nd e") auto
    obtain t f r e2 where rec: "notes_loop osc drawn ns e1 = (t, f, r, e2)"
      by (cases "notes_loop osc drawn ns e1") auto
    have eq: "fired = (if fire then midi # f else f)" "ns' = (midi, nd1) # r"
      using Cons.prems False p rec unfolding a by (auto simp add: case_prod_beta)
    note IH = Cons.IH [OF rec]
    note g = process_note_gate [OF p]
    show ?thesis
    proof (intro conjI ballI)
      show "map fst ns' = map fst (a # ns)" using IH eq a by simp
    next
      fix m assume m: "m \<in> set fired"
      show "\<exists>i < length (a # ns). fst ((a # ns) ! i) = m
          \<and> pendingNoteOff (snd ((a # ns) ! i))
          \<and> zero_crossing (lastSample (snd ((a # ns) ! i))) (lastSample (snd (ns' ! i)))
          \<and> \<not> pendingNoteOff (snd (ns' ! i))"
      proof (cases "m \<in> set f")
        case True
        then obtain i where "i < length ns" "fst (ns ! i) = m" "pendingNoteOff (snd (ns ! i))"
          "zero_crossing (lastSample (snd (ns ! i))) (lastSample (snd (r ! i)))"
          "\<not> pendingNoteOff (snd (r ! i))"
          using IH by blast
        then show ?thesis unfolding eq by (intro exI [of _ "Suc i"]) simp
      next
        case False
        then have "fire" "m = midi" using m eq by (auto split: if_splits)
        then show ?thesis unfolding eq a using g by (intro exI [of _ 0]) simp
      qed
    qed
  qed
qed

lemma envelope_Oscillator_noteOff [simp]:
  "envelope (Oscillator_noteOff message osc) = envelope osc"
  by (simp add: Oscillator_noteOff_def Let_def split: option.splits)

lemma Oscillator_getNextSample_fired:
  assumes "Oscillator_getNextSample drawn pl pr osc = (stereo, fired, osc')"
  shows "\<forall>m \<in> set fired. \<exists>i < length (osc_notes osc). fst (osc_notes osc ! i) = m
          \<and> pendingNoteOff (snd (osc_notes osc ! i))
          \<and> zero_crossing (lastSample (snd (osc_notes osc ! i))) (lastSample (snd (osc_notes osc' ! i)))
          \<and> \<not> pendingNoteOff (snd (osc_notes osc' ! i))"
proof (cases "envelope osc")
  case None
  then show ?thesis using assms by (auto simp: Oscillator_getNextSample_def)
next
  case (Some e)
  show ?thesis
  proof (cases "osc_notes osc = []")
    case True
    then show ?thesis using assms Some by (auto simp: Oscillator_getNextSample_def)
  next
    case False
    obtain t f r e1 where rec: "notes_loop osc drawn (osc_notes osc) e = (t, f, r, e1)"
      by (cases "notes_loop osc drawn (osc_notes osc) e") auto
    have "fired = f" "osc_notes osc' = r"
      using assms Some False rec by (auto simp: Oscillator_getNextSample_def case_prod_beta)
    then show ?thesis using notes_loop_fired [OF rec] by simp
  qed
qed

text \<open>
  Claim C5 (zero-crossing-gated note-off). For one note in one call of
  \<open>Oscillator::getNextSample\<close>, \<open>envelope->noteOff\<close> is forwarded exactly when the
  pending flag is set and the product of the previous and the current summed unison sample
  is negative; the flag is cleared exactly then, and the envelope is otherwise only advanced.
  The stereo contribution of the note does not depend on the pending flag, so a note whose
  note-off is pending keeps generating audio. Over any run of consecutive samples of a note
  (no other call on the oscillator in between) the note-off is forwarded at sample \<open>i\<close> iff
  the flag was set at the start and \<open>i\<close> is the first sample with a sign change; it is
  forwarded at most once, and the flag is still set after the run iff it was set and no
  sign change occurred. For the whole loop over the notes, every forwarded note-off belongs
  to a note that was pending and changed sign in this sample, and its flag is cleared.
  \<open>Oscillator::noteOff\<close> itself never touches the envelope. Samples are exact reals; the
  noise draws and the smoothed pan gains are inputs.
\<close>

theorem zero_crossing_gated_noteOff:
  "(process_note osc drawn midi nd e = (out, fire, nd1, e2) \<longrightarrow>
      (fire \<longleftrightarrow> pendingNoteOff nd \<and> zero_crossing (lastSample nd) (lastSample nd1))
      \<and> (pendingNoteOff nd1 \<longleftrightarrow> pendingNoteOff nd \<and> \<not> fire)
      \<and> e2 = (if fire then Envelope_noteOff midi (snd (getNextSampleForNote midi e))
               else snd (getNextSampleForNote midi e)))
   \<and> fst (process_note osc drawn midi (nd\<lparr>pendingNoteOff := True\<rparr>) e)
       = fst (process_note osc drawn midi (nd\<lparr>pendingNoteOff := False\<rparr>) e)
   \<and> (\<forall>i < length ds.
         fst (fst (note_run osc midi ds nd e) ! i)
           \<longleftrightarrow> pendingNoteOff nd
               \<and> sign_change_at (lastSample nd) (map snd (fst (note_run osc midi ds nd e))) i
               \<and> (\<forall>j < i. \<not> sign_change_at (lastSample nd)
                                (map snd (fst (note_run osc midi ds nd e))) j))
   \<and> length (filter fst (fst (note_run osc midi ds nd e))) \<le> 1
   \<and> (pendingNoteOff (fst (snd (note_run osc midi ds nd e)))
        \<longleftrightarrow> pendingNoteOff nd
            \<and> (\<forall>i < length ds. \<not> sign_change_at (lastSample nd)
                                    (map snd (fst (note_run osc midi ds nd e))) i))
   \<and> (Oscillator_getNextSample drawnAll panLeft panRight osc = (stereo, fired, osc') \<longrightarrow>
        (\<forall>m \<in> set fired. \<exists>i < length (osc_notes osc). fst (osc_notes osc ! i) = m
            \<and> pendingNoteOff (snd (osc_notes osc ! i))
            \<and> zero_crossing (lastSample (snd (osc_notes osc ! i)))
                             (lastSample (snd (osc_notes osc' ! i)))
            \<and> \<not> pendingNoteOff (snd (osc_notes osc' ! i))))
   \<and> envelope (Oscillator_noteOff message osc) = envelope osc"
proof -
  have A: "process_note osc drawn midi nd e = (out, fire, nd1, e2) \<longrightarrow>
      (fire \<longleftrightarrow> pendingNoteOff nd \<and> zero_crossing (lastSample nd) (lastSample nd1))
      \<and> (pendingNoteOff nd1 \<longleftrightarrow> pendingNoteOff nd \<and> \<not> fire)
      \<and> e2 = (if fire then Envelope_noteOff midi (snd (getNextSampleForNote midi e))
               else snd (getNextSampleForNote midi e))"
    using process_note_gate [of osc drawn midi nd e out fire nd1 e2] by blast
  have B: "fst (process_note osc drawn midi (nd\<lparr>pendingNoteOff := True\<rparr>) e)
       = fst (process_note osc drawn midi (nd\<lparr>pendingNoteOff := False\<rparr>) e)"
    by (simp add: process_note_audio)
  have C: "\<forall>i < length ds.
         fst (fst (note_run osc midi ds nd e) ! i)
           \<longleftrightarrow> pendingNoteOff nd
               \<and> sign_change_at (lastSample nd) (map snd (fst (note_run osc midi ds nd e))) i
               \<and> (\<forall>j < i. \<not> sign_change_at (lastSample nd)
                                (map snd (fst (note_run osc midi ds nd e))) j)"
    using note_run_trace [of _ ds osc midi nd e] by blast
  have D: "length (filter fst (fst (note_run osc midi ds nd e))) \<le> 1"
    using note_run_count [of osc midi ds nd e] by (simp split: if_splits)
  have E: "pendingNoteOff (fst (snd (note_run osc midi ds nd e)))
        \<longleftrightarrow> pendingNoteOff nd
            \<and> (\<forall>i < length ds. \<not> sign_change_at (lastSample nd)
                                    (map snd (fst (note_run osc midi ds nd e))) i)"
    by (rule note_run_pending)
  have F: "Oscillator_getNextSample drawnAll panLeft panRight osc = (stereo, fired, osc') \<longrightarrow>
        (\<forall>m \<in> set fired. \<exists>i < length (osc_notes osc). fst (osc_notes osc ! i) = m
            \<and> pendingNoteOff (snd (osc_notes osc ! i))
            \<and> zero_crossing (lastSample (snd (osc_notes osc ! i)))
                             (lastSample (snd (osc_notes osc' ! i)))
            \<and> \<not> pendingNoteOff (snd (osc_notes osc' ! i)))"
    using Oscillator_getNextSample_fired [of drawnAll panLeft panRight osc stereo fired osc'] by blast
  from A B C D E F show ?thesis by simp
qed

lemma example_oscillator_fields:
  "osc_notes example_oscillator = [(69, example_note\<lparr>pendingNoteOff := True\<rparr>)]"
  "envelope example_oscillator = Some (Envelope_noteOn 69 Envelope_init)"
  "voices example_oscillator = 1"
  "waveform example_oscillator = White_Noise"
  by (simp_all add: example_oscillator_def Oscillator_noteOff_def calculateMidiNoteWithOctaveOffset_def
      jlimit_def Let_def)

lemma example_voice_loop:
  "sumSample (voice_loop example_oscillator nd env (\<lambda>v. d)) = (d * 2 - 1) * velocity nd * env"
  by (simp add: voice_loop_def voice_step_def generateWaveSample_def example_oscillator_fields
      Let_def case_prod_beta)

lemma example_envelope_levels:
  "fst (getNextSampleForNote 69 (Envelope_noteOn 69 Envelope_init)) = 10 / 441"
  "fst (getNextSampleForNote 69 (snd (getNextSampleForNote 69 (Envelope_noteOn 69 Envelope_init))))
     = 20 / 441"
  by code_simp+

lemma example_run:
  "fst (note_run example_oscillator 69 [\<lambda>v. 1, \<lambda>v. 0]
       (example_note\<lparr>pendingNoteOff := True\<rparr>) (Envelope_noteOn 69 Envelope_init))
     = [(False, 10 / 441), (True, - (20 / 441))]"
  by (simp add: process_note_parts Let_def case_prod_beta example_voice_loop
      example_envelope_levels zero_crossing_def example_note_def)

text \<open>
  The example oscillator (white noise, one voice, note 69 with a pending note-off) run for
  two samples with draws 1 and 0: the summed samples are \<open>10/441\<close> and \<open>-20/441\<close>, the first
  sample has no sign change against the initial last sample 0, the second has one, so the
  note-off is forwarded at the second sample and the flag is cleared.
\<close>

theorem zero_crossing_gated_noteOff_witness:
  "map snd (fst (note_run example_oscillator 69 [\<lambda>v. 1, \<lambda>v. 0]
       (example_note\<lparr>pendingNoteOff := True\<rparr>) (Envelope_noteOn 69 Envelope_init)))
     = [10 / 441, - (20 / 441)]
   \<and> \<not> sign_change_at 0 [10 / 441, - (20 / 441)] 0
   \<and> sign_change_at 0 [10 / 441, - (20 / 441)] 1
   \<and> \<not> fst (fst (note_run example_oscillator 69 [\<lambda>v. 1, \<lambda>v. 0]
       (example_note\<lparr>pendingNoteOff := True\<rparr>) (Envelope_noteOn 69 Envelope_init)) ! 0)
   \<and> fst (fst (note_run example_oscillator 69 [\<lambda>v. 1, \<lambda>v. 0]
       (example_note\<lparr>pendingNoteOff := True\<rparr>) (Envelope_noteOn 69 Envelope_init)) ! 1)
   \<and> \<not> pendingNoteOff (fst (snd (note_run example_oscillator 69 [\<lambda>v. 1, \<lambda>v. 0]
       (example_note\<lparr>pendingNoteOff := True\<rparr>) (Envelope_noteOn 69 Envelope_init))))"
proof -
  let ?nd = "example_note\<lparr>pendingNoteOff := True\<rparr>"
  let ?e = "Envelope_noteOn 69 Envelope_init"
  let ?ds = "[\<lambda>v::nat. 1::real, \<lambda>v. 0]"
  let ?run = "note_run example_oscillator 69 ?ds ?nd ?e"
  have sm: "map snd (fst ?run) = [10 / 441, - (20 / 441)]"
    by (simp only: example_run) simp
  have l0: "lastSample ?nd = 0" "pendingNoteOff ?nd" "length ?ds = 2"
    by (simp_all add: example_note_def)
  have s0: "\<not> sign_change_at 0 [10 / 441, - (20 / 441)] 0"
    and s1: "sign_change_at 0 [10 / 441, - (20 / 441)] 1"
    by (simp_all add: sign_change_at_def zero_crossing_def)
  note t = zero_crossing_gated_noteOff [where osc = example_oscillator and midi = 69
      and ds = ?ds and nd = ?nd and e = ?e]
  have C: "\<forall>i < 2. fst (fst ?run ! i)
           \<longleftrightarrow> sign_change_at 0 [10 / 441, - (20 / 441)] i
               \<and> (\<forall>j < i. \<not> sign_change_at 0 [10 / 441, - (20 / 441)] j)"
    using t [THEN conjunct2, THEN conjunct2, THEN conjunct1] unfolding sm l0 by simp
  have f0: "\<not> fst (fst ?run ! 0)" using C s0 by simp
  have f1: "fst (fst ?run ! 1)" using C [rule_format, of 1] s0 s1 by simp
  have E: "pendingNoteOff (fst (snd ?run))
        \<longleftrightarrow> (\<forall>i < 2. \<not> sign_change_at 0 [10 / 441, - (20 / 441)] i)"
    using t [THEN conjunct2, THEN conjunct2, THEN conjunct2, THEN conjunct2, THEN conjunct1]
    unfolding sm l0 by simp
  have p: "\<not> pendingNoteOff (fst (snd ?run))" using E s1 by auto
  from sm s0 s1 f0 f1 p show ?thesis by blast
qed

end
